theory Spec2Isabelle
  imports Main "HOL-Library.Sublist"
begin

section \<open>Records scraped by the listener\<close>

text \<open>
  A tweet object as the scrapers and the test build it. A field that a JavaScript
  object lacks (\<^verbatim>\<open>undefined\<close>) or holds as \<^verbatim>\<open>null\<close> is \<open>None\<close>.
  The Nitter scraper's \<^verbatim>\<open>extractTweetId\<close> returns \<^verbatim>\<open>null\<close> for a link
  without a numeric status, so the id is optional too.
\<close>

record tweet =
  tweet_id :: "string option"
  tweet_username :: "string option"
  tweet_author :: "string option"
  tweet_text :: "string option"
  tweet_url :: "string option"
  tweet_created_at :: "string option"
  tweet_timestamp :: "string option"
  tweet_source :: "string option"
  tweet_likes :: "int option"
  tweet_retweets :: "int option"
  tweet_replies :: "int option"

text \<open>A tweet as the repository's test builds it (\<^verbatim>\<open>testTweet\<close>), by id and text.\<close>

definition sample_tweet :: "string \<Rightarrow> string \<Rightarrow> tweet" where
  "sample_tweet i txt =
     \<lparr>tweet_id = Some i, tweet_username = Some ''testuser'', tweet_author = Some ''test_user'',
      tweet_text = Some txt, tweet_url = None, tweet_created_at = Some ''2024-01-01T00:00:00.000Z'',
      tweet_timestamp = None, tweet_source = Some ''test'', tweet_likes = Some 5,
      tweet_retweets = Some 2, tweet_replies = None\<rparr>"

section \<open>index.js: removeDuplicates\<close>

text \<open>
  \<^verbatim>\<open>const seen = new Set(); return tweets.filter(tweet => { if (seen.has(tweet.id))
  return false; seen.add(tweet.id); return true; })\<close>: the callback runs on the
  elements from left to right, with the set threaded through.
\<close>

fun removeDuplicates_from :: "string option set \<Rightarrow> tweet list \<Rightarrow> tweet list" where
  "removeDuplicates_from seen [] = []"
| "removeDuplicates_from seen (t # ts) =
     (if tweet_id t \<in> seen then removeDuplicates_from seen ts
      else t # removeDuplicates_from (insert (tweet_id t) seen) ts)"

definition removeDuplicates :: "tweet list \<Rightarrow> tweet list" where
  "removeDuplicates tweets = removeDuplicates_from {} tweets"

section \<open>tweetStorage.js: the tweets table\<close>

text \<open>
  A row of the table \<^verbatim>\<open>tweets\<close>, with the columns that \<^verbatim>\<open>saveTweet\<close>,
  \<^verbatim>\<open>markAsNotified\<close> and \<^verbatim>\<open>wasSent\<close> read or write. The JSON columns
  (hashtags, mentions, media_urls), is_retweet and sentiment_score are written by
  \<^verbatim>\<open>saveTweet\<close> with a default and carry no constraint; they are left out.
  The schema declares \<^verbatim>\<open>id TEXT PRIMARY KEY\<close>, \<^verbatim>\<open>username\<close>, \<^verbatim>\<open>text\<close> and
  \<^verbatim>\<open>created_at\<close> as \<^verbatim>\<open>NOT NULL\<close>, and \<^verbatim>\<open>notified BOOLEAN DEFAULT 0\<close>.
  The table is the list of its rows: SQLite admits NULL in a TEXT primary key and NULL
  never conflicts, so uniqueness is a property of the operations, not of the type.
  An I/O failure of the database file is outside the model; the errors below are the
  ones the schema decides.
\<close>

record row =
  row_id :: "string option"
  row_username :: string
  row_text :: string
  row_created_at :: string
  row_likes :: int
  row_retweets :: int
  row_replies :: int
  row_url :: "string option"
  row_lang :: "string option"
  row_source :: "string option"
  row_category :: string
  row_priority :: int
  row_notified :: int

type_synonym table = "row list"

datatype storage_error = NOT_NULL_constraint_failed string

text \<open>\<^verbatim>\<open>WHERE id = ?\<close>: a comparison with NULL on either side selects nothing.\<close>

definition id_matches :: "string option \<Rightarrow> row \<Rightarrow> bool" where
  "id_matches i r = (case i of None \<Rightarrow> False | Some k \<Rightarrow> row_id r = Some k)"

text \<open>\<^verbatim>\<open>x || d\<close> on a number: \<^verbatim>\<open>undefined\<close>, \<^verbatim>\<open>NaN\<close> and 0 give the default.\<close>

definition or_num :: "int option \<Rightarrow> int \<Rightarrow> int" where
  "or_num x d = (case x of None \<Rightarrow> d | Some n \<Rightarrow> if n = 0 then d else n)"

text \<open>\<^verbatim>\<open>x || d\<close> on a string: \<^verbatim>\<open>undefined\<close> and the empty string give the default.\<close>

definition or_str :: "string option \<Rightarrow> string \<Rightarrow> string" where
  "or_str x d = (case x of None \<Rightarrow> d | Some s \<Rightarrow> if s = [] then d else s)"

text \<open>
  \<^verbatim>\<open>INSERT OR REPLACE INTO tweets (...) VALUES (...)\<close>: a NULL in a NOT NULL column
  without default aborts the statement; otherwise every row in conflict on the primary
  key is deleted and the new row inserted, \<^verbatim>\<open>notified\<close> at its default 0. The tweet
  has no category or priority field, so those take \<^verbatim>\<open>|| 'general'\<close> and \<^verbatim>\<open>|| 1\<close>.
\<close>

definition saveTweet :: "tweet \<Rightarrow> table \<Rightarrow> storage_error + table" where
  "saveTweet t db =
     (case tweet_username t of
        None \<Rightarrow> Inl (NOT_NULL_constraint_failed ''tweets.username'')
      | Some u \<Rightarrow>
     (case tweet_text t of
        None \<Rightarrow> Inl (NOT_NULL_constraint_failed ''tweets.text'')
      | Some x \<Rightarrow>
     (case tweet_created_at t of
        None \<Rightarrow> Inl (NOT_NULL_constraint_failed ''tweets.created_at'')
      | Some c \<Rightarrow>
          Inr (filter (\<lambda>r. \<not> id_matches (tweet_id t) r) db @
               [\<lparr>row_id = tweet_id t, row_username = u, row_text = x, row_created_at = c,
                 row_likes = or_num (tweet_likes t) 0,
                 row_retweets = or_num (tweet_retweets t) 0,
                 row_replies = or_num (tweet_replies t) 0,
                 row_url = tweet_url t,
                 row_lang = Some ''en'',
                 row_source = Some (or_str (tweet_source t) ''twitter''),
                 row_category = ''general'', row_priority = 1,
                 row_notified = 0\<rparr>]))))"

text \<open>
  \<^verbatim>\<open>insertSampleData()\<close>, which the constructor runs on every start: three sample
  tweets by \<^verbatim>\<open>INSERT OR IGNORE\<close>, which skips an id the table already has. The
  columns it does not name stay NULL or at their default. \<open>toISO\<close> is \<^verbatim>\<open>toISOString\<close>
  and \<open>now\<close> the clock.
\<close>

definition insert_or_ignore :: "row \<Rightarrow> table \<Rightarrow> table" where
  "insert_or_ignore r db = (if \<exists>r'\<in>set db. id_matches (row_id r) r' then db else db @ [r])"

definition sample_rows :: "(int \<Rightarrow> string) \<Rightarrow> int \<Rightarrow> row list" where
  "sample_rows toISO now =
     [\<lparr>row_id = Some ''sample_tweet_1'', row_username = ''tech_news'',
       row_text = ''Breaking: New AI breakthrough in machine learning shows 95% accuracy improvement! #AI #MachineLearning #Innovation'',
       row_created_at = toISO now, row_likes = 150, row_retweets = 45, row_replies = 23,
       row_url = Some ''https://twitter.com/tech_news/status/sample_tweet_1'',
       row_lang = None, row_source = None, row_category = ''technology'', row_priority = 3,
       row_notified = 0\<rparr>,
      \<lparr>row_id = Some ''sample_tweet_2'', row_username = ''startup_world'',
       row_text = ''Exciting startup news: New blockchain platform raises $50M in Series A funding! The future of decentralized finance is here. #Blockchain #Startup #Crypto'',
       row_created_at = toISO (now - 3600000), row_likes = 89, row_retweets = 34, row_replies = 12,
       row_url = Some ''https://twitter.com/startup_world/status/sample_tweet_2'',
       row_lang = None, row_source = None, row_category = ''business'', row_priority = 2,
       row_notified = 0\<rparr>,
      \<lparr>row_id = Some ''sample_tweet_3'', row_username = ''news_alert'',
       row_text = ''URGENT: Major tech conference announces revolutionary innovation in quantum computing. Industry experts are calling it a game-changer!'',
       row_created_at = toISO (now - 7200000), row_likes = 234, row_retweets = 78, row_replies = 45,
       row_url = Some ''https://twitter.com/news_alert/status/sample_tweet_3'',
       row_lang = None, row_source = None, row_category = ''news'', row_priority = 3,
       row_notified = 0\<rparr>]"

definition insertSampleData :: "(int \<Rightarrow> string) \<Rightarrow> int \<Rightarrow> table \<Rightarrow> table" where
  "insertSampleData toISO now db = fold insert_or_ignore (sample_rows toISO now) db"

text \<open>\<^verbatim>\<open>UPDATE tweets SET notified = 1 WHERE id = ?\<close>: no row selected is no error.\<close>

definition markAsNotified :: "string option \<Rightarrow> table \<Rightarrow> storage_error + table" where
  "markAsNotified tweetId db =
     Inr (map (\<lambda>r. if id_matches tweetId r then r\<lparr>row_notified := 1\<rparr> else r) db)"

text \<open>
  \<^verbatim>\<open>SELECT notified FROM tweets WHERE id = ?\<close> with \<^verbatim>\<open>db.get\<close> (the first row or
  none), then \<^verbatim>\<open>row ? row.notified === 1 : false\<close>.
\<close>

definition wasSent :: "string option \<Rightarrow> table \<Rightarrow> bool" where
  "wasSent tweetId db =
     (case find (id_matches tweetId) db of None \<Rightarrow> False | Some r \<Rightarrow> row_notified r = 1)"

text \<open>
  \<^verbatim>\<open>markAsSent(tweetId, tweetData = null)\<close>: with data, save it and then mark;
  without, only mark. A rejection of \<^verbatim>\<open>saveTweet\<close> rejects the whole call.
\<close>

definition markAsSent :: "string option \<Rightarrow> tweet option \<Rightarrow> table \<Rightarrow> storage_error + table" where
  "markAsSent tweetId tweetData db =
     (case tweetData of
        Some t \<Rightarrow> (case saveTweet t db of Inl e \<Rightarrow> Inl e | Inr db' \<Rightarrow> markAsNotified tweetId db')
      | None \<Rightarrow> markAsNotified tweetId db)"

section \<open>index.js: filterNewTweets\<close>

text \<open>
  \<^verbatim>\<open>for (const tweet of tweets) { if (!(await wasSent(tweet.id))) newTweets.push(tweet) }\<close>:
  the loop, with the array it pushes to as accumulator.
\<close>

fun filterNewTweets_loop :: "table \<Rightarrow> tweet list \<Rightarrow> tweet list \<Rightarrow> tweet list" where
  "filterNewTweets_loop db newTweets [] = newTweets"
| "filterNewTweets_loop db newTweets (t # ts) =
     (if \<not> wasSent (tweet_id t) db then filterNewTweets_loop db (newTweets @ [t]) ts
      else filterNewTweets_loop db newTweets ts)"

definition filterNewTweets :: "table \<Rightarrow> tweet list \<Rightarrow> tweet list" where
  "filterNewTweets db tweets = filterNewTweets_loop db [] tweets"

section \<open>rateLimiter.js\<close>

text \<open>
  \<^verbatim>\<open>this.limits\<close>: the ceiling (\<^verbatim>\<open>requests\<close>) and the window in milliseconds of
  each configured service. Any other service name has no entry. (The callers pass
  \<^verbatim>\<open>'twitter'\<close> and \<^verbatim>\<open>'discord'\<close>; a name that JavaScript resolves through
  the prototype of the object, such as \<^verbatim>\<open>'constructor'\<close>, is outside the model.)
\<close>

record limit =
  limit_requests :: nat
  limit_window :: int

definition limits :: "string \<Rightarrow> limit option" where
  "limits service =
     (if service = ''twitter'' then Some \<lparr>limit_requests = 15, limit_window = 15 * 60 * 1000\<rparr>
      else if service = ''discord'' then Some \<lparr>limit_requests = 50, limit_window = 60 * 1000\<rparr>
      else if service = ''nitter'' then Some \<lparr>limit_requests = 30, limit_window = 60 * 1000\<rparr>
      else None)"

text \<open>
  \<^verbatim>\<open>this.requests\<close>: a Map from the key \<^verbatim>\<open>`${service}:${identifier}`\<close> to the array
  of request timestamps (\<^verbatim>\<open>Date.now()\<close>, milliseconds).
\<close>

type_synonym requests = "string \<rightharpoonup> int list"

definition limiter_key :: "string \<Rightarrow> string \<Rightarrow> string" where
  "limiter_key service identifier = service @ '':'' @ identifier"

text \<open>\<^verbatim>\<open>this.requests.get(key) || []\<close>: the stored array, empty for a key never seen.\<close>

definition history :: "requests \<Rightarrow> string \<Rightarrow> int list" where
  "history reqs key = (case reqs key of None \<Rightarrow> [] | Some h \<Rightarrow> h)"

text \<open>
  \<^verbatim>\<open>checkLimit(service, identifier)\<close> at the time \<open>now\<close> that \<^verbatim>\<open>Date.now()\<close>
  returns: the answer and the Map afterwards. An unconfigured service is admitted and the
  Map is not touched. Otherwise the key is created if absent, the history is pruned to
  the timestamps after \<^verbatim>\<open>now - limit.window\<close> and stored; at the ceiling the answer
  is false, below it \<open>now\<close> is pushed and the answer is true.
\<close>

definition checkLimit :: "string \<Rightarrow> string \<Rightarrow> int \<Rightarrow> requests \<Rightarrow> bool \<times> requests" where
  "checkLimit service identifier now reqs =
     (case limits service of
        None \<Rightarrow> (True, reqs)
      | Some lim \<Rightarrow>
         (let key = limiter_key service identifier;
              windowStart = now - limit_window lim;
              reqs1 = (if reqs key = None then reqs(key \<mapsto> []) else reqs);
              requestHistory = history reqs1 key;
              validRequests = filter (\<lambda>timestamp. timestamp > windowStart) requestHistory;
              reqs2 = reqs1(key \<mapsto> validRequests)
          in if length validRequests \<ge> limit_requests lim then (False, reqs2)
             else (True, reqs2(key \<mapsto> validRequests @ [now]))))"

text \<open>
  \<^verbatim>\<open>waitForLimit(service, identifier)\<close> reads the Map and never writes it: the time it
  sleeps, if any. \<^verbatim>\<open>Math.min(...validRequests)\<close> is taken of a non-empty array only when
  the ceiling is positive; of an empty array it is \<^verbatim>\<open>Infinity\<close>, and the sleep is then
  unbounded (\<open>None\<close> is no sleep, \<open>Some None\<close> the unbounded one).
\<close>

definition waitForLimit :: "string \<Rightarrow> string \<Rightarrow> int \<Rightarrow> requests \<Rightarrow> int option option" where
  "waitForLimit service identifier now reqs =
     (case limits service of
        None \<Rightarrow> None
      | Some lim \<Rightarrow>
         (let key = limiter_key service identifier;
              windowStart = now - limit_window lim;
              requestHistory = history reqs key;
              validRequests = filter (\<lambda>timestamp. timestamp > windowStart) requestHistory
          in if length validRequests \<ge> limit_requests lim then
               (case validRequests of
                  [] \<Rightarrow> Some None
                | v # vs \<Rightarrow>
                   (let waitTime = fold min vs v + limit_window lim - now
                    in if waitTime > 0 then Some (Some waitTime) else None))
             else None))"

text \<open>A sequence of \<^verbatim>\<open>checkLimit\<close> calls, each (service, identifier, now), in order.\<close>

fun checkLimit_calls :: "(string \<times> string \<times> int) list \<Rightarrow> requests \<Rightarrow> bool list \<times> requests" where
  "checkLimit_calls [] reqs = ([], reqs)"
| "checkLimit_calls ((service, identifier, now) # calls) reqs =
     (let (ok, reqs') = checkLimit service identifier now reqs;
          (oks, reqs'') = checkLimit_calls calls reqs'
      in (ok # oks, reqs''))"

text \<open>
  The ceiling invariant of the Map: no configured key stores more timestamps than its
  service's ceiling.
\<close>

definition within_ceiling :: "requests \<Rightarrow> bool" where
  "within_ceiling reqs =
     (\<forall>service identifier lim. limits service = Some lim \<longrightarrow>
        length (history reqs (limiter_key service identifier)) \<le> limit_requests lim)"

section \<open>filterEngine.js and twitterScraper.js: simplifyQuery\<close>

text \<open>
  Strings are lists of code units; the model covers code units below 256. The characters
  that the regular expression class \<^verbatim>\<open>\s\<close> matches among them are tab, line feed,
  vertical tab, form feed, carriage return, space and the no-break space.
\<close>

definition dquote :: char where
  "dquote = CHR 0x22"

definition is_space :: "char \<Rightarrow> bool" where
  "is_space c = (c = CHR 0x20 \<or> c = CHR 0x09 \<or> c = CHR 0x0A \<or> c = CHR 0x0B \<or>
                 c = CHR 0x0C \<or> c = CHR 0x0D \<or> c = CHR 0xA0)"

text \<open>
  \<^verbatim>\<open>query.match(/"([^"]+)"/g)\<close> followed by \<^verbatim>\<open>term.replace(/"/g, '')\<close>: the
  matches from left to right, without overlap. At a quote that is followed by one or
  more characters other than a quote and then a quote, the characters between are a
  match and the scan goes on after the closing quote; anywhere else it moves one
  character on.
\<close>

function quotedTerms :: "string \<Rightarrow> string list" where
  "quotedTerms [] = []"
| "quotedTerms (c # cs) =
     (if c = dquote \<and> takeWhile (\<lambda>x. x \<noteq> dquote) cs \<noteq> [] \<and> dropWhile (\<lambda>x. x \<noteq> dquote) cs \<noteq> []
      then takeWhile (\<lambda>x. x \<noteq> dquote) cs # quotedTerms (tl (dropWhile (\<lambda>x. x \<noteq> dquote) cs))
      else quotedTerms cs)"
  by pat_completeness auto
termination
proof (relation "measure length")
  fix c :: char and cs :: string
  have "length (tl (dropWhile (\<lambda>x. x \<noteq> dquote) cs)) \<le> length cs"
    using length_dropWhile_le [of "\<lambda>x. x \<noteq> dquote" cs] by simp
  then show "(tl (dropWhile (\<lambda>x. x \<noteq> dquote) cs), c # cs) \<in> measure length"
    by simp
qed simp_all

text \<open>
  \<^verbatim>\<open>query.split(/\s+/)\<close>: the pieces between maximal runs of white space. A string
  that begins or ends with white space has an empty first or last piece, and the empty
  string has the one piece \<^verbatim>\<open>''\<close>.
\<close>

function split_ws :: "string \<Rightarrow> string list" where
  "split_ws s =
     (if dropWhile (\<lambda>c. \<not> is_space c) s = [] then [takeWhile (\<lambda>c. \<not> is_space c) s]
      else takeWhile (\<lambda>c. \<not> is_space c) s #
           split_ws (dropWhile is_space (dropWhile (\<lambda>c. \<not> is_space c) s)))"
  by pat_completeness auto
termination
proof (relation "measure length")
  fix s :: string
  assume ne: "dropWhile (\<lambda>c. \<not> is_space c) s \<noteq> []"
  then obtain x xs where d: "dropWhile (\<lambda>c. \<not> is_space c) s = x # xs"
    by (cases "dropWhile (\<lambda>c. \<not> is_space c) s") auto
  then have "is_space x"
    using hd_dropWhile [OF ne] by simp
  then have "length (dropWhile is_space (x # xs)) \<le> length xs"
    by (simp add: length_dropWhile_le)
  moreover have "length (x # xs) \<le> length s"
    using length_dropWhile_le [of "\<lambda>c. \<not> is_space c" s] d by simp
  ultimately show "(dropWhile is_space (dropWhile (\<lambda>c. \<not> is_space c) s), s) \<in> measure length"
    using d by simp
qed simp

declare split_ws.simps [simp del]

text \<open>\<^verbatim>\<open>word.includes(sub)\<close>: \<open>sub\<close> occurs in \<open>word\<close> as a contiguous piece.\<close>

fun js_includes :: "string \<Rightarrow> string \<Rightarrow> bool" where
  "js_includes [] sub = (sub = [])"
| "js_includes (c # cs) sub = (take (length sub) (c # cs) = sub \<or> js_includes cs sub)"

text \<open>\<^verbatim>\<open>word.startsWith('"')\<close>.\<close>

definition startsWith_dquote :: "string \<Rightarrow> bool" where
  "startsWith_dquote word = (case word of [] \<Rightarrow> False | c # cs \<Rightarrow> c = dquote)"

text \<open>The test of the \<^verbatim>\<open>words.forEach\<close> callback: the word is pushed when it holds.\<close>

definition is_main_term :: "string \<Rightarrow> bool" where
  "is_main_term word =
     (\<not> js_includes word ''filter:'' \<and>
      \<not> js_includes word ''min_faves:'' \<and>
      \<not> (word = ''AND'' \<or> word = ''OR'' \<or> word = ''('' \<or> word = '')'') \<and>
      \<not> startsWith_dquote word)"

text \<open>The array \<^verbatim>\<open>keywords\<close> before it is sliced: the quoted terms, then the main terms.\<close>

definition keyword_list :: "string \<Rightarrow> string list" where
  "keyword_list query = quotedTerms query @ filter is_main_term (split_ws query)"

text \<open>\<^verbatim>\<open>array.join(' ')\<close>.\<close>

fun join_space :: "string list \<Rightarrow> string" where
  "join_space [] = []"
| "join_space [w] = w"
| "join_space (w # v # ws) = w @ '' '' @ join_space (v # ws)"

text \<open>
  The two copies of \<^verbatim>\<open>simplifyQuery\<close> differ in the slice only:
  \<^verbatim>\<open>keywords.slice(0, 3)\<close> in the scraper, \<^verbatim>\<open>keywords.slice(0, 2)\<close> in the filter engine.
\<close>

definition simplifyQuery_terms :: "nat \<Rightarrow> string \<Rightarrow> string list" where
  "simplifyQuery_terms cap query = take cap (keyword_list query)"

definition TwitterScraper_simplifyQuery :: "string \<Rightarrow> string" where
  "TwitterScraper_simplifyQuery query = join_space (simplifyQuery_terms 3 query)"

definition FilterEngine_simplifyQuery :: "string \<Rightarrow> string" where
  "FilterEngine_simplifyQuery query = join_space (simplifyQuery_terms 2 query)"

text \<open>A phrase between quotes, as the filters write it.\<close>

definition quoted :: "string \<Rightarrow> string" where
  "quoted s = dquote # s @ [dquote]"

text \<open>The queries of \<^verbatim>\<open>this.filters\<close> as the constructor of FilterEngine sets them.\<close>

definition filter_queries :: "string list" where
  "filter_queries =
     [''filter:blue_verified min_faves:3 Podha AND ('' @ quoted ''RWA'' @ '' OR '' @
        quoted ''Real World Assets'' @ '' OR '' @ quoted ''Yield'' @ '')'',
      ''filter:blue_verified min_faves:3 Solana AND ('' @ quoted ''Smart Vaults'' @ '' OR '' @
        quoted ''Safe Yield'' @ '' OR '' @ quoted ''Podha'' @ '')'',
      ''filter:blue_verified min_faves:3 Bitcoin AND ('' @ quoted ''tokenized treasury'' @ '' OR '' @
        quoted ''credit protocol'' @ '' OR '' @ quoted ''RWA on-chain'' @ '')'',
      ''filter:blue_verified min_faves:3 DeFi AND ('' @ quoted ''custodial vault'' @ '' OR '' @
        quoted ''delta neutral'' @ '')'']"

text \<open>\<^verbatim>\<open>[...new Set(queries)]\<close>: the first occurrence of each value, in insertion order.\<close>

definition set_values :: "'a list \<Rightarrow> 'a list" where
  "set_values xs = rev (remdups (rev xs))"

text \<open>
  \<^verbatim>\<open>getSearchQueries()\<close>: each filter's query followed by its simplified form,
  without duplicates.
\<close>

definition getSearchQueries :: "string list \<Rightarrow> string list" where
  "getSearchQueries filters =
     set_values (concat (map (\<lambda>query. [query, FilterEngine_simplifyQuery query]) filters))"

section \<open>discordNotifier.js\<close>

text \<open>
  A promise settles with a value or rejects with an error: \<open>Inr\<close> the value, \<open>Inl\<close>
  the message of the error thrown. \<^verbatim>\<open>try { ... } catch (error) { ... }\<close> hands an
  error of the body to the handler.
\<close>

type_synonym 'a promise = "string + 'a"

definition try_catch :: "'a promise \<Rightarrow> (string \<Rightarrow> 'a promise) \<Rightarrow> 'a promise" where
  "try_catch body handler = (case body of Inl e \<Rightarrow> handler e | Inr v \<Rightarrow> Inr v)"

text \<open>
  The body that \<^verbatim>\<open>sendTweetNotification\<close> posts: the embed's description, the value of
  its Author field, the two counts of its Engagement field and its url. The Date field
  and the embed's timestamp are formatted times and are left out; so are the constant
  title, colour, footer and bot name.
\<close>

record payload =
  embed_description :: "string option"
  embed_author :: string
  embed_likes :: int
  embed_retweets :: int
  embed_url :: "string option"

text \<open>The object a send resolves with: \<^verbatim>\<open>{ success, error }\<close> or \<^verbatim>\<open>{ success, response }\<close>.\<close>

record send_result =
  sr_success :: bool
  sr_error :: "string option"
  sr_response :: "string option"

text \<open>
  \<^verbatim>\<open>validateWebhookUrl()\<close>, on the value of \<^verbatim>\<open>DISCORD_WEBHOOK_URL\<close>: an unset or
  empty variable and the placeholder of the example file leave \<^verbatim>\<open>webhookUrl\<close> null.
\<close>

definition validateWebhookUrl :: "string option \<Rightarrow> string option" where
  "validateWebhookUrl url =
     (case url of
        None \<Rightarrow> None
      | Some u \<Rightarrow>
          if u = [] \<or> u = ''https://discord.com/api/webhooks/YOUR_WEBHOOK_URL'' then None
          else Some u)"

text \<open>Template interpolation of a string field: \<^verbatim>\<open>undefined\<close> prints as such.\<close>

definition interpolate :: "string option \<Rightarrow> string" where
  "interpolate x = (case x of None \<Rightarrow> ''undefined'' | Some s \<Rightarrow> s)"

definition tweet_payload :: "tweet \<Rightarrow> payload" where
  "tweet_payload t =
     \<lparr>embed_description = tweet_text t,
      embed_author = ''@'' @ interpolate (tweet_username t),
      embed_likes = or_num (tweet_likes t) 0,
      embed_retweets = or_num (tweet_retweets t) 0,
      embed_url = (case tweet_url t of None \<Rightarrow> None | Some u \<Rightarrow> if u = [] then None else Some u)\<rparr>"

text \<open>
  \<^verbatim>\<open>sendTweetNotification(tweet)\<close>. \<open>post\<close> is \<^verbatim>\<open>axios.post\<close>: for a url and a
  body, the response's data or the error it throws (a network failure, a timeout, a
  status outside 2xx). \<open>webhookUrl\<close> is the field the constructor has validated;
  \<^verbatim>\<open>!this.webhookUrl\<close> holds of null and of the empty string, and then nothing is
  posted. The post stands in a \<^verbatim>\<open>try\<close> whose handler returns the failure object.
\<close>

definition not_configured :: send_result where
  "not_configured = \<lparr>sr_success = False, sr_error = Some ''Webhook not configured'', sr_response = None\<rparr>"

definition sendTweetNotification ::
  "string option \<Rightarrow> (string \<Rightarrow> payload \<Rightarrow> string promise) \<Rightarrow> tweet \<Rightarrow> send_result promise" where
  "sendTweetNotification webhookUrl post t =
     (case webhookUrl of
        None \<Rightarrow> Inr not_configured
      | Some url \<Rightarrow>
          if url = [] then Inr not_configured
          else
            try_catch
              (case post url (tweet_payload t) of
                 Inl e \<Rightarrow> Inl e
               | Inr data \<Rightarrow> Inr \<lparr>sr_success = True, sr_error = None, sr_response = Some data\<rparr>)
              (\<lambda>e. Inr \<lparr>sr_success = False, sr_error = Some e, sr_response = None\<rparr>))"

definition sendTweet ::
  "string option \<Rightarrow> (string \<Rightarrow> payload \<Rightarrow> string promise) \<Rightarrow> tweet \<Rightarrow> send_result promise" where
  "sendTweet webhookUrl post t = sendTweetNotification webhookUrl post t"

section \<open>twitterScraper.js: the Nitter path\<close>

text \<open>
  What the scraper takes from its runtime: the clock (\<^verbatim>\<open>Date.now()\<close>, one reading
  for a call), the printing of a number in a string, \<^verbatim>\<open>toISOString\<close> of a time in
  milliseconds, and \<^verbatim>\<open>encodeURIComponent\<close>.
\<close>

record runtime =
  Date_now :: int
  number_to_string :: "int \<Rightarrow> string"
  toISOString :: "int \<Rightarrow> string"
  encodeURIComponent :: "string \<Rightarrow> string"

text \<open>
  \<^verbatim>\<open>createDemoTweets(query)\<close>: three records, tagged \<^verbatim>\<open>source: 'demo'\<close>, whose text
  carries the query. The rocket that ends the second text is given by its UTF-8 bytes.
\<close>

definition createDemoTweets :: "runtime \<Rightarrow> string \<Rightarrow> tweet list" where
  "createDemoTweets rt query =
     [\<lparr>tweet_id = Some (''demo_'' @ number_to_string rt (Date_now rt) @ ''_1''),
       tweet_username = None,
       tweet_author = Some ''tech_enthusiast'',
       tweet_text = Some (''Just discovered some amazing insights about '' @ query @
          ''! This could be a game-changer for the industry. #Innovation #Tech''),
       tweet_url = Some ''https://twitter.com/tech_enthusiast/status/demo_1'',
       tweet_created_at = None,
       tweet_timestamp = Some (toISOString rt (Date_now rt - 3600000)),
       tweet_source = Some ''demo'',
       tweet_likes = Some 15, tweet_retweets = Some 8, tweet_replies = None\<rparr>,
      \<lparr>tweet_id = Some (''demo_'' @ number_to_string rt (Date_now rt) @ ''_2''),
       tweet_username = None,
       tweet_author = Some ''crypto_news'',
       tweet_text = Some (''Breaking: Major developments in '' @ query @
          '' space. Industry experts are calling this revolutionary! '' @
          [CHR 0xF0, CHR 0x9F, CHR 0x9A, CHR 0x80]),
       tweet_url = Some ''https://twitter.com/crypto_news/status/demo_2'',
       tweet_created_at = None,
       tweet_timestamp = Some (toISOString rt (Date_now rt - 7200000)),
       tweet_source = Some ''demo'',
       tweet_likes = Some 42, tweet_retweets = Some 23, tweet_replies = None\<rparr>,
      \<lparr>tweet_id = Some (''demo_'' @ number_to_string rt (Date_now rt) @ ''_3''),
       tweet_username = None,
       tweet_author = Some ''market_analyst'',
       tweet_text = Some (''Interesting analysis on '' @ query @
          '' trends. The data shows significant growth potential in this sector.''),
       tweet_url = Some ''https://twitter.com/market_analyst/status/demo_3'',
       tweet_created_at = None,
       tweet_timestamp = Some (toISOString rt (Date_now rt - 10800000)),
       tweet_source = Some ''demo'',
       tweet_likes = Some 28, tweet_retweets = Some 12, tweet_replies = None\<rparr>]"

definition is_digit :: "char \<Rightarrow> bool" where
  "is_digit c = (48 \<le> (of_char c :: nat) \<and> (of_char c :: nat) \<le> 57)"

text \<open>
  \<^verbatim>\<open>extractTweetId(tweetLink)\<close>: the digits of the first \<^verbatim>\<open>/status/\<close> that digits
  follow, or null.
\<close>

fun extractTweetId :: "string \<Rightarrow> string option" where
  "extractTweetId [] = None"
| "extractTweetId (c # cs) =
     (if take 8 (c # cs) = ''/status/'' \<and> takeWhile is_digit (drop 8 (c # cs)) \<noteq> []
      then Some (takeWhile is_digit (drop 8 (c # cs)))
      else extractTweetId cs)"

text \<open>\<^verbatim>\<open>parseInt\<close> of a string of decimal digits.\<close>

definition decimal :: "string \<Rightarrow> int" where
  "decimal ds = foldl (\<lambda>n c. 10 * n + (int (of_char c) - 48)) 0 ds"

text \<open>
  \<^verbatim>\<open>extractNumber(text)\<close>: the first run of digits and commas, commas removed, parsed;
  0 when there is no such run. A run of commas alone parses to \<^verbatim>\<open>NaN\<close>, which is
  \<open>None\<close> here as for a missing count.
\<close>

definition extractNumber :: "string \<Rightarrow> int option" where
  "extractNumber txt =
     (let m = takeWhile (\<lambda>c. is_digit c \<or> c = CHR 0x2C)
                (dropWhile (\<lambda>c. \<not> (is_digit c \<or> c = CHR 0x2C)) txt)
      in if m = [] then Some 0
         else (let ds = filter (\<lambda>c. c \<noteq> CHR 0x2C) m
               in if ds = [] then None else Some (decimal ds)))"

text \<open>
  One \<^verbatim>\<open>.timeline-item\<close> of the page as cheerio reads it: the trimmed text of its
  content and of its user name, the \<^verbatim>\<open>href\<close> of its link if it has one, and the
  texts beside the heart and the retweet icon.
\<close>

record timeline_item =
  item_text :: string
  item_author :: string
  item_link :: "string option"
  item_likes :: string
  item_retweets :: string

text \<open>The callback of \<^verbatim>\<open>.each\<close> on one item: the tweet it pushes, if any.\<close>

definition item_tweet :: "runtime \<Rightarrow> timeline_item \<Rightarrow> tweet option" where
  "item_tweet rt it =
     (case item_link it of
        None \<Rightarrow> None
      | Some tweetLink \<Rightarrow>
          if item_text it \<noteq> [] \<and> item_author it \<noteq> [] \<and> tweetLink \<noteq> [] then
            Some \<lparr>tweet_id = extractTweetId tweetLink,
                  tweet_username = None,
                  tweet_author = Some (item_author it),
                  tweet_text = Some (item_text it),
                  tweet_url = Some (''https://twitter.com'' @ tweetLink),
                  tweet_created_at = None,
                  tweet_timestamp = Some (toISOString rt (Date_now rt)),
                  tweet_source = Some ''nitter'',
                  tweet_likes = extractNumber (item_likes it),
                  tweet_retweets = extractNumber (item_retweets it),
                  tweet_replies = None\<rparr>
          else None)"

text \<open>
  \<^verbatim>\<open>searchWithNitter(query)\<close>. \<open>get\<close> is \<^verbatim>\<open>axios.get\<close> with the parse of the
  page: for a url, the timeline items of the page, or the error thrown. Items past
  index 10 are skipped. No tweet at all, and any error of the \<^verbatim>\<open>try\<close> block, give
  the demo tweets for the simplified query.
\<close>

definition searchWithNitter ::
  "runtime \<Rightarrow> string \<Rightarrow> (string \<Rightarrow> timeline_item list promise) \<Rightarrow> string \<Rightarrow> tweet list promise" where
  "searchWithNitter rt nitterInstance get query =
     (let simplifiedQuery = TwitterScraper_simplifyQuery query;
          encodedQuery = encodeURIComponent rt simplifiedQuery;
          url = nitterInstance @ ''/search?q='' @ encodedQuery
      in try_catch
           (case get url of
              Inl e \<Rightarrow> Inl e
            | Inr items \<Rightarrow>
                (let tweets = List.map_filter (item_tweet rt) (take 11 items)
                 in if length tweets = 0 then Inr (createDemoTweets rt simplifiedQuery)
                    else Inr tweets))
           (\<lambda>e. Inr (createDemoTweets rt (TwitterScraper_simplifyQuery query))))"

text \<open>
  \<^verbatim>\<open>searchTweets(query)\<close> with \<^verbatim>\<open>useNitter\<close> set: the retry loop around
  \<^verbatim>\<open>searchWithNitter\<close>. \<open>get\<close> may answer each attempt differently. A loop that is
  never entered (\<^verbatim>\<open>maxRetries\<close> not positive) falls off the end of the function,
  which is \<^verbatim>\<open>undefined\<close>: \<open>Inr None\<close>. The last failure is thrown again.
\<close>

function searchTweets_loop ::
  "runtime \<Rightarrow> string \<Rightarrow> (nat \<Rightarrow> string \<Rightarrow> timeline_item list promise) \<Rightarrow> int \<Rightarrow> int \<Rightarrow> string \<Rightarrow>
     tweet list option promise" where
  "searchTweets_loop rt nitterInstance get maxRetries retries query =
     (if retries < maxRetries then
        (case searchWithNitter rt nitterInstance (get (nat retries)) query of
           Inr tweets \<Rightarrow> Inr (Some tweets)
         | Inl e \<Rightarrow>
             if retries + 1 \<ge> maxRetries then Inl e
             else searchTweets_loop rt nitterInstance get maxRetries (retries + 1) query)
      else Inr None)"
  by pat_completeness auto
termination
  by (relation "measure (\<lambda>(rt, nitterInstance, get, maxRetries, retries, query). nat (maxRetries - retries))") auto

declare searchTweets_loop.simps [simp del]

definition searchTweets ::
  "runtime \<Rightarrow> string \<Rightarrow> (nat \<Rightarrow> string \<Rightarrow> timeline_item list promise) \<Rightarrow> int \<Rightarrow> string \<Rightarrow>
     tweet list option promise" where
  "searchTweets rt nitterInstance get maxRetries query =
     searchTweets_loop rt nitterInstance get maxRetries 0 query"

section \<open>index.js: runWorkflow\<close>

text \<open>
  What a run does to the outside, in order: the warning of a skipped trigger, a search
  for a query, a send to Discord with the object it resolved with, a
  \<^verbatim>\<open>markAsSent(tweet.id)\<close>, and the secondary loggers. The informational log lines and
  the sleeps between steps (also \<^verbatim>\<open>rateLimiter.waitForLimit('discord')\<close>, which only
  sleeps and never writes the limiter) are left out.
\<close>

datatype event =
    Skip_warned
  | Searched string
  | Sent tweet send_result
  | Marked "string option"
  | Airtable_logged tweet
  | Notion_logged tweet

text \<open>
  The listener: the flag \<^verbatim>\<open>isRunning\<close>, the queries of its filter engine, the table
  of its storage, the webhook of its notifier, the switches of its two loggers, and
  the effects performed so far.
\<close>

record listener =
  isRunning :: bool
  filters :: "string list"
  tweets_table :: table
  webhookUrl :: "string option"
  airtable_enabled :: bool
  notion_enabled :: bool
  effects :: "event list"

text \<open>
  What the outside answers during a run: \<^verbatim>\<open>twitterScraper.searchTweets(query)\<close>, once
  its retries are over, with tweets or with the error it throws; and the webhook.
\<close>

record world =
  search :: "string \<Rightarrow> tweet list promise"
  post :: "string \<Rightarrow> payload \<Rightarrow> string promise"

datatype run_error =
    Search_failed string
  | Send_rejected string
  | Storage_failed storage_error

text \<open>The \<^verbatim>\<open>for (const query of queries)\<close> loop: an error of a search leaves it.\<close>

fun search_all :: "world \<Rightarrow> string list \<Rightarrow> tweet list \<Rightarrow> listener \<Rightarrow> (run_error + tweet list) \<times> listener" where
  "search_all w [] allTweets s = (Inr allTweets, s)"
| "search_all w (query # queries) allTweets s =
     (case search w query of
        Inl e \<Rightarrow> (Inl (Search_failed e), s\<lparr>effects := effects s @ [Searched query]\<rparr>)
      | Inr tweets \<Rightarrow>
          search_all w queries (allTweets @ tweets) (s\<lparr>effects := effects s @ [Searched query]\<rparr>))"

text \<open>
  The \<^verbatim>\<open>for (const tweet of newTweets)\<close> loop: send, then \<^verbatim>\<open>markAsSent(tweet.id)\<close>
  with no second argument, then the enabled loggers (each catches its own errors).
  The object that the send resolves with is not looked at. A rejection of the send or
  of the storage leaves the loop.
\<close>

fun deliver_all :: "world \<Rightarrow> tweet list \<Rightarrow> listener \<Rightarrow> (run_error + unit) \<times> listener" where
  "deliver_all w [] s = (Inr (), s)"
| "deliver_all w (t # ts) s =
     (case sendTweet (webhookUrl s) (post w) t of
        Inl e \<Rightarrow> (Inl (Send_rejected e), s)
      | Inr r \<Rightarrow>
         (case markAsSent (tweet_id t) None (tweets_table s) of
            Inl e \<Rightarrow> (Inl (Storage_failed e), s\<lparr>effects := effects s @ [Sent t r]\<rparr>)
          | Inr db' \<Rightarrow>
              deliver_all w ts
                (s\<lparr>tweets_table := db',
                   effects := effects s @ [Sent t r, Marked (tweet_id t)] @
                     (if airtable_enabled s then [Airtable_logged t] else []) @
                     (if notion_enabled s then [Notion_logged t] else [])\<rparr>)))"

text \<open>The \<^verbatim>\<open>try\<close> block: the number of tweets processed, or the error thrown.\<close>

definition workflow_body :: "world \<Rightarrow> listener \<Rightarrow> (run_error + nat) \<times> listener" where
  "workflow_body w s =
     (case search_all w (getSearchQueries (filters s)) [] s of
        (Inl e, s1) \<Rightarrow> (Inl e, s1)
      | (Inr allTweets, s1) \<Rightarrow>
          (let uniqueTweets = removeDuplicates allTweets;
               newTweets = filterNewTweets (tweets_table s1) uniqueTweets
           in if length newTweets = 0 then (Inr 0, s1)
              else (case deliver_all w newTweets s1 of
                      (Inl e, s2) \<Rightarrow> (Inl e, s2)
                    | (Inr u, s2) \<Rightarrow> (Inr (length newTweets), s2))))"

text \<open>
  The guard at the head of \<^verbatim>\<open>runWorkflow\<close>, which runs without a suspension point:
  whether the run goes on, and the listener afterwards.
\<close>

definition runWorkflow_enter :: "listener \<Rightarrow> bool \<times> listener" where
  "runWorkflow_enter s =
     (if isRunning s then (False, s\<lparr>effects := effects s @ [Skip_warned]\<rparr>)
      else (True, s\<lparr>isRunning := True\<rparr>))"

text \<open>The \<^verbatim>\<open>finally\<close> block.\<close>

definition runWorkflow_finally :: "listener \<Rightarrow> listener" where
  "runWorkflow_finally s = s\<lparr>isRunning := False\<rparr>"

datatype outcome = Skipped | Completed nat | Threw run_error

text \<open>One call of \<^verbatim>\<open>runWorkflow\<close> that no other trigger interleaves with.\<close>

definition runWorkflow :: "world \<Rightarrow> listener \<Rightarrow> outcome \<times> listener" where
  "runWorkflow w s =
     (case runWorkflow_enter s of
        (False, s') \<Rightarrow> (Skipped, s')
      | (True, s0) \<Rightarrow>
          (case workflow_body w s0 of
             (Inl e, s1) \<Rightarrow> (Threw e, runWorkflow_finally s1)
           | (Inr n, s1) \<Rightarrow> (Completed n, runWorkflow_finally s1)))"

text \<open>
  Triggers that interleave. The scheduler and the start-up call both call
  \<^verbatim>\<open>runWorkflow\<close>; between the suspension points of one call the other may run. A
  state of the system is the listener with the number of calls that are inside the
  \<^verbatim>\<open>try\<close> block. A trigger runs the guard; a call inside the block takes a step,
  which writes the table and the effects and never the flag; a call inside the block
  reaches its \<^verbatim>\<open>finally\<close>. The constructor sets the flag to false.
\<close>

inductive reachable :: "listener \<times> nat \<Rightarrow> bool" where
  constructed: "\<not> isRunning s \<Longrightarrow> reachable (s, 0)"
| trigger: "reachable (s, n) \<Longrightarrow> runWorkflow_enter s = (entered, s') \<Longrightarrow>
     reachable (s', if entered then n + 1 else n)"
| step: "reachable (s, n) \<Longrightarrow> 0 < n \<Longrightarrow> isRunning s' = isRunning s \<Longrightarrow> reachable (s', n)"
| finish: "reachable (s, n) \<Longrightarrow> 0 < n \<Longrightarrow> reachable (runWorkflow_finally s, n - 1)"

subsection \<open>A listener and a world to run it in\<close>

text \<open>
  The listener as its constructor builds it, with the built-in filters and a webhook,
  on a new table, which holds the sample rows; a tweet as \<^verbatim>\<open>searchWithNitter\<close> builds it; and a world in
  which every search finds that tweet and the webhook accepts every post.
\<close>

definition new_listener :: listener where
  "new_listener =
     \<lparr>isRunning = False, filters = filter_queries,
      tweets_table = insertSampleData (\<lambda>ms. ''2024-01-01T00:00:00.000Z'') 1704067200000 [],
      webhookUrl = Some ''https://discord.com/api/webhooks/1/token'',
      airtable_enabled = False, notion_enabled = False, effects = []\<rparr>"

definition nitter_tweet :: tweet where
  "nitter_tweet =
     \<lparr>tweet_id = Some ''1700000000000000001'', tweet_username = None,
      tweet_author = Some ''@podha'', tweet_text = Some ''Podha RWA yield is live'',
      tweet_url = Some ''https://twitter.com/podha/status/1700000000000000001#m'',
      tweet_created_at = None, tweet_timestamp = Some ''2024-01-01T00:00:00.000Z'',
      tweet_source = Some ''nitter'', tweet_likes = Some 7, tweet_retweets = Some 2,
      tweet_replies = None\<rparr>"

definition steady_world :: world where
  "steady_world = \<lparr>search = (\<lambda>query. Inr [nitter_tweet]), post = (\<lambda>url body. Inr ''ok'')\<rparr>"

definition failing_world :: world where
  "failing_world = \<lparr>search = (\<lambda>query. Inl ''net::ERR_CONNECTION_REFUSED''), post = (\<lambda>url body. Inr ''ok'')\<rparr>"

text \<open>The tweets of the \<open>Sent\<close> effects, in order.\<close>

definition sent_tweets :: "event list \<Rightarrow> tweet list" where
  "sent_tweets es = List.map_filter (\<lambda>e. case e of Sent t r \<Rightarrow> Some t | _ \<Rightarrow> None) es"

section \<open>Properties of removeDuplicates and filterNewTweets\<close>

lemma removeDuplicates_from_subseq: "subseq (removeDuplicates_from seen ts) ts"
  by (induction ts arbitrary: seen) auto

lemma removeDuplicates_from_ids:
  "tweet_id ` set (removeDuplicates_from seen ts) = tweet_id ` set ts - seen"
  by (induction ts arbitrary: seen) auto

lemma removeDuplicates_from_distinct: "distinct (map tweet_id (removeDuplicates_from seen ts))"
  by (induction ts arbitrary: seen) (auto simp: removeDuplicates_from_ids)

lemma removeDuplicates_from_find:
  "find (\<lambda>t. tweet_id t = i) (removeDuplicates_from seen ts) =
     (if i \<in> seen then None else find (\<lambda>t. tweet_id t = i) ts)"
  by (induction ts arbitrary: seen) auto

lemma removeDuplicates_from_filter:
  "removeDuplicates_from s ts = filter (\<lambda>t. tweet_id t \<notin> s) (removeDuplicates_from {} ts)"
proof (induction ts arbitrary: s)
  case Nil
  show ?case by simp
next
  case (Cons t ts)
  have one: "removeDuplicates_from {tweet_id t} ts =
      filter (\<lambda>u. tweet_id u \<notin> {tweet_id t}) (removeDuplicates_from {} ts)"
    by (rule Cons.IH)
  show ?case
  proof (cases "tweet_id t \<in> s")
    case True
    have "removeDuplicates_from s (t # ts) = removeDuplicates_from s ts"
      using True by simp
    also have "\<dots> = filter (\<lambda>u. tweet_id u \<notin> s) (removeDuplicates_from {} ts)"
      by (rule Cons.IH)
    also have "\<dots> = filter (\<lambda>u. tweet_id u \<notin> s) (removeDuplicates_from {tweet_id t} ts)"
      unfolding one using True by (auto intro: filter_cong)
    finally show ?thesis using True by simp
  next
    case False
    have "removeDuplicates_from (insert (tweet_id t) s) ts =
        filter (\<lambda>u. tweet_id u \<notin> insert (tweet_id t) s) (removeDuplicates_from {} ts)"
      by (rule Cons.IH)
    also have "\<dots> = filter (\<lambda>u. tweet_id u \<notin> s) (removeDuplicates_from {tweet_id t} ts)"
      unfolding one by (auto intro: filter_cong)
    finally show ?thesis using False by simp
  qed
qed

lemma removeDuplicates_from_append:
  "removeDuplicates_from seen (xs @ ys) =
     removeDuplicates_from seen xs @ removeDuplicates_from (seen \<union> tweet_id ` set xs) ys"
  by (induction xs arbitrary: seen) (auto simp: insert_absorb)

lemma removeDuplicates_from_fixed:
  "distinct (map tweet_id ts) \<Longrightarrow> tweet_id ` set ts \<inter> seen = {} \<Longrightarrow> removeDuplicates_from seen ts = ts"
  by (induction ts arbitrary: seen) auto

text \<open>
  C4. Dedup stability and idempotence. \<^verbatim>\<open>removeDuplicates\<close> returns a subsequence of
  its input (input order kept) whose ids are pairwise distinct; for every id the record
  it keeps is the first record of the input with that id; on two concatenated batches
  it keeps the first batch's survivors and, of the second batch, only ids the first
  batch does not have; and applying it twice is applying it once.
\<close>

theorem removeDuplicates_first_occurrence:
  "subseq (removeDuplicates L) L
   \<and> distinct (map tweet_id (removeDuplicates L))
   \<and> (\<forall>i. find (\<lambda>t. tweet_id t = i) (removeDuplicates L) = find (\<lambda>t. tweet_id t = i) L)
   \<and> removeDuplicates (A @ B) =
       removeDuplicates A @ filter (\<lambda>t. tweet_id t \<notin> tweet_id ` set A) (removeDuplicates B)
   \<and> removeDuplicates (removeDuplicates L) = removeDuplicates L"
proof -
  have "removeDuplicates (A @ B) =
       removeDuplicates A @ filter (\<lambda>t. tweet_id t \<notin> tweet_id ` set A) (removeDuplicates B)"
    unfolding removeDuplicates_def removeDuplicates_from_append
    using removeDuplicates_from_filter [of "tweet_id ` set A" B] by simp
  moreover have "removeDuplicates (removeDuplicates L) = removeDuplicates L"
    unfolding removeDuplicates_def
    by (rule removeDuplicates_from_fixed) (simp_all add: removeDuplicates_from_distinct)
  ultimately show ?thesis
    by (simp add: removeDuplicates_def removeDuplicates_from_subseq
        removeDuplicates_from_distinct removeDuplicates_from_find)
qed

theorem removeDuplicates_first_occurrence_witness:
  "removeDuplicates ([sample_tweet ''t1'' ''first'', sample_tweet ''t2'' ''x''] @
                     [sample_tweet ''t1'' ''second'', sample_tweet ''t3'' ''y'']) =
     [sample_tweet ''t1'' ''first'', sample_tweet ''t2'' ''x'', sample_tweet ''t3'' ''y'']"
  using removeDuplicates_first_occurrence
    [of "[sample_tweet ''t1'' ''first'', sample_tweet ''t2'' ''x'']"
        "[sample_tweet ''t1'' ''first'', sample_tweet ''t2'' ''x'']"
        "[sample_tweet ''t1'' ''second'', sample_tweet ''t3'' ''y'']"]
  by (simp add: removeDuplicates_def sample_tweet_def)

lemma filterNewTweets_loop_filter:
  "filterNewTweets_loop db acc ts = acc @ filter (\<lambda>t. \<not> wasSent (tweet_id t) db) ts"
  by (induction ts arbitrary: acc) auto

text \<open>
  C5. Unseen filter correctness. Every input record whose id \<^verbatim>\<open>wasSent\<close> reports as
  sent is absent from the output of \<^verbatim>\<open>filterNewTweets\<close>, every input record whose
  id is not reported as sent is present, and the output is the input with the sent
  records dropped, in the input's order.
\<close>

theorem filterNewTweets_unseen:
  "(\<forall>r\<in>set tweets. wasSent (tweet_id r) db \<longrightarrow> r \<notin> set (filterNewTweets db tweets))
   \<and> (\<forall>r\<in>set tweets. \<not> wasSent (tweet_id r) db \<longrightarrow> r \<in> set (filterNewTweets db tweets))
   \<and> subseq (filterNewTweets db tweets) tweets
   \<and> filterNewTweets db tweets = filter (\<lambda>r. \<not> wasSent (tweet_id r) db) tweets"
proof -
  have loop: "filterNewTweets db tweets = filter (\<lambda>r. \<not> wasSent (tweet_id r) db) tweets"
    unfolding filterNewTweets_def filterNewTweets_loop_filter by simp
  have order: "subseq (filter (\<lambda>r. \<not> wasSent (tweet_id r) db) tweets) tweets"
    by simp
  show ?thesis
    unfolding loop using order by simp
qed

theorem filterNewTweets_unseen_witness:
  "wasSent (Some ''t1'') [\<lparr>row_id = Some ''t1'', row_username = ''u'', row_text = ''x'',
        row_created_at = ''c'', row_likes = 0, row_retweets = 0, row_replies = 0, row_url = None,
        row_lang = Some ''en'', row_source = Some ''twitter'', row_category = ''general'', row_priority = 1,
        row_notified = 1\<rparr>]
   \<and> \<not> wasSent (Some ''t2'') [\<lparr>row_id = Some ''t1'', row_username = ''u'', row_text = ''x'',
        row_created_at = ''c'', row_likes = 0, row_retweets = 0, row_replies = 0, row_url = None,
        row_lang = Some ''en'', row_source = Some ''twitter'', row_category = ''general'', row_priority = 1,
        row_notified = 1\<rparr>]
   \<and> filterNewTweets [\<lparr>row_id = Some ''t1'', row_username = ''u'', row_text = ''x'',
        row_created_at = ''c'', row_likes = 0, row_retweets = 0, row_replies = 0, row_url = None,
        row_lang = Some ''en'', row_source = Some ''twitter'', row_category = ''general'', row_priority = 1,
        row_notified = 1\<rparr>] [sample_tweet ''t1'' ''a'', sample_tweet ''t2'' ''b''] =
       [sample_tweet ''t2'' ''b'']"
  using filterNewTweets_unseen [of "[sample_tweet ''t1'' ''a'', sample_tweet ''t2'' ''b'']"
     "[\<lparr>row_id = Some ''t1'', row_username = ''u'', row_text = ''x'',
        row_created_at = ''c'', row_likes = 0, row_retweets = 0, row_replies = 0, row_url = None,
        row_lang = Some ''en'', row_source = Some ''twitter'', row_category = ''general'', row_priority = 1,
        row_notified = 1\<rparr>]"]
  by (simp add: wasSent_def id_matches_def sample_tweet_def)

section \<open>Properties of the rate limiter\<close>

lemma limits_cases:
  "limits service = Some lim \<Longrightarrow> service = ''twitter'' \<or> service = ''discord'' \<or> service = ''nitter''"
  by (auto simp: limits_def split: if_splits)

lemma limiter_key_service:
  assumes "limits s1 = Some l1" "limits s2 = Some l2" "limiter_key s1 i1 = limiter_key s2 i2"
  shows "s1 = s2"
  using limits_cases [OF assms(1)] limits_cases [OF assms(2)] assms(3)
  by (auto simp: limiter_key_def)

lemma checkLimit_history_same:
  "limits service = Some lim \<Longrightarrow>
   history (snd (checkLimit service ident now reqs)) (limiter_key service ident) =
     (let v = filter (\<lambda>t. now - limit_window lim < t) (history reqs (limiter_key service ident))
      in if limit_requests lim \<le> length v then v else v @ [now])"
  by (auto simp: checkLimit_def history_def Let_def)

lemma checkLimit_fst:
  "limits service = Some lim \<Longrightarrow>
   fst (checkLimit service ident now reqs) =
     (length (filter (\<lambda>t. now - limit_window lim < t) (history reqs (limiter_key service ident)))
        < limit_requests lim)"
  by (auto simp: checkLimit_def history_def Let_def)

lemma checkLimit_history_other:
  "key \<noteq> limiter_key service ident \<Longrightarrow>
   history (snd (checkLimit service ident now reqs)) key = history reqs key"
  by (auto simp: checkLimit_def history_def Let_def split: option.splits)

lemma checkLimit_unconfigured:
  "limits service = None \<Longrightarrow> checkLimit service ident now reqs = (True, reqs)"
  by (simp add: checkLimit_def)

lemma checkLimit_calls_window:
  assumes cfg: "limits service = Some lim"
  shows "\<lbrakk>history reqs (limiter_key service ident) = old @ new;
          \<forall>x\<in>set old. \<forall>t\<in>set ts. x \<le> t - limit_window lim;
          \<forall>x\<in>set new. \<forall>t\<in>set ts. t - limit_window lim < x;
          \<forall>a\<in>set ts. \<forall>b\<in>set ts. b - a < limit_window lim\<rbrakk> \<Longrightarrow>
         fst (checkLimit_calls (map (\<lambda>t. (service, ident, t)) ts) reqs) =
           replicate (min (limit_requests lim - length new) (length ts)) True @
           replicate (length ts - (limit_requests lim - length new)) False"
proof (induction ts arbitrary: reqs old new)
  case Nil
  show ?case by simp
next
  case (Cons t ts)
  let ?key = "limiter_key service ident"
  let ?c = "limit_requests lim"
  have pruned: "filter (\<lambda>x. t - limit_window lim < x) (history reqs ?key) = new"
  proof -
    have "filter (\<lambda>x. t - limit_window lim < x) old = []"
      using Cons.prems(2) by (auto simp: filter_empty_conv)
    moreover have "filter (\<lambda>x. t - limit_window lim < x) new = new"
      using Cons.prems(3) by (auto simp: filter_id_conv)
    ultimately show ?thesis using Cons.prems(1) by simp
  qed
  obtain ok reqs' where step: "checkLimit service ident t reqs = (ok, reqs')"
    by (cases "checkLimit service ident t reqs")
  have ok: "ok = (length new < ?c)"
    proof -
    have "fst (checkLimit service ident t reqs) = ok" using step by simp
    then show ?thesis unfolding checkLimit_fst [OF cfg] pruned by simp
  qed
  have hist': "history reqs' ?key = (if ?c \<le> length new then new else new @ [t])"
    proof -
    have "snd (checkLimit service ident t reqs) = reqs'" using step by simp
    then have "history reqs' ?key = history (snd (checkLimit service ident t reqs)) ?key" by simp
    then show ?thesis unfolding checkLimit_history_same [OF cfg] pruned by (simp add: Let_def)
  qed
  have pw: "\<forall>a\<in>set ts. \<forall>b\<in>set ts. b - a < limit_window lim"
    using Cons.prems(4) by simp
  show ?case
  proof (cases "length new < ?c")
    case True
    have h: "history reqs' ?key = [] @ (new @ [t])" using hist' True by simp
    have valid: "\<forall>x\<in>set (new @ [t]). \<forall>u\<in>set ts. u - limit_window lim < x"
      using Cons.prems(3) Cons.prems(4) by auto
    have IH: "fst (checkLimit_calls (map (\<lambda>t. (service, ident, t)) ts) reqs') =
           replicate (min (?c - length (new @ [t])) (length ts)) True @
           replicate (length ts - (?c - length (new @ [t]))) False"
      by (rule Cons.IH [OF h _ valid pw]) simp
    have m: "min (?c - length new) (Suc (length ts)) = Suc (min (?c - Suc (length new)) (length ts))"
      using True by (auto simp: min_def)
    have d: "Suc (length ts) - (?c - length new) = length ts - (?c - Suc (length new))"
      using True by arith
    show ?thesis using step ok True IH m d by (simp add: split_def)
  next
    case False
    have h: "history reqs' ?key = old' @ new" if "old' = []" for old' using hist' False that by simp
    have valid: "\<forall>x\<in>set new. \<forall>u\<in>set ts. u - limit_window lim < x"
      using Cons.prems(3) by auto
    have IH: "fst (checkLimit_calls (map (\<lambda>t. (service, ident, t)) ts) reqs') =
           replicate (min (?c - length new) (length ts)) True @
           replicate (length ts - (?c - length new)) False"
      by (rule Cons.IH [OF h [OF refl] _ valid pw]) simp
    have z: "?c - length new = 0" using False by simp
    show ?thesis using step ok False IH z
      by (simp add: split_def replicate_append_same flip: replicate_Suc)
  qed
qed

lemma checkLimit_within_ceiling:
  assumes "within_ceiling reqs"
  shows "within_ceiling (snd (checkLimit service ident now reqs))"
proof (cases "limits service")
  case None
  then show ?thesis using assms by (simp add: checkLimit_unconfigured)
next
  case (Some lim)
  show ?thesis
    unfolding within_ceiling_def
  proof (intro allI impI)
    fix s i l assume l: "limits s = Some l"
    show "length (history (snd (checkLimit service ident now reqs)) (limiter_key s i)) \<le> limit_requests l"
    proof (cases "limiter_key s i = limiter_key service ident")
      case True
      then have "s = service" using limiter_key_service [OF l Some] by simp
      then have ll: "l = lim" using l Some by simp
      define v where "v = filter (\<lambda>t. now - limit_window lim < t) (history reqs (limiter_key service ident))"
      have "length (history reqs (limiter_key service ident)) \<le> limit_requests lim"
        using assms Some by (simp add: within_ceiling_def)
      then have v: "length v \<le> limit_requests lim"
        unfolding v_def by (rule order_trans [OF length_filter_le])
      have "history (snd (checkLimit service ident now reqs)) (limiter_key service ident) =
          (if limit_requests lim \<le> length v then v else v @ [now])"
        unfolding v_def using checkLimit_history_same [OF Some] by (simp add: Let_def)
      then show ?thesis
        unfolding True ll using v by simp
    next
      case False
      then show ?thesis
        using assms l by (simp add: checkLimit_history_other within_ceiling_def)
    qed
  qed
qed

lemma checkLimit_calls_within_ceiling:
  "within_ceiling reqs \<Longrightarrow> within_ceiling (snd (checkLimit_calls calls reqs))"
proof (induction calls arbitrary: reqs)
  case Nil
  then show ?case by simp
next
  case (Cons c calls)
  obtain s i n where c: "c = (s, i, n)" by (cases c)
  have "within_ceiling (snd (checkLimit s i n reqs))"
    using Cons.prems by (rule checkLimit_within_ceiling)
  then have "within_ceiling (snd (checkLimit_calls calls (snd (checkLimit s i n reqs))))"
    by (rule Cons.IH)
  then show ?case
    unfolding c by (simp add: split_def Let_def)
qed

lemma within_ceiling_empty: "within_ceiling Map.empty"
  by (simp add: within_ceiling_def history_def)

text \<open>
  C2. Rate ceiling enforcement. For a configured service with ceiling \<open>c\<close> and any
  ident, \<open>c + 1\<close> calls of \<^verbatim>\<open>checkLimit\<close> whose times lie within one window
  (any two differ by less than the window), in a window holding no other request (every
  timestamp stored before has expired at each of the calls), answer true \<open>c\<close> times and
  then false. A call that answers false stores the pruned history and nothing else.
  After any sequence of \<^verbatim>\<open>checkLimit\<close> calls on the new limiter, the timestamps stored
  for the key, and so those of them within the window of any instant, number at most \<open>c\<close>.
\<close>

theorem checkLimit_rate_ceiling:
  assumes cfg: "limits service = Some lim"
  shows "(length ts = limit_requests lim + 1 \<longrightarrow>
          (\<forall>a\<in>set ts. \<forall>b\<in>set ts. b - a < limit_window lim) \<longrightarrow>
          (\<forall>x\<in>set (history reqs (limiter_key service ident)).
              \<forall>t\<in>set ts. x \<le> t - limit_window lim) \<longrightarrow>
          fst (checkLimit_calls (map (\<lambda>t. (service, ident, t)) ts) reqs) =
            replicate (limit_requests lim) True @ [False])
       \<and> (\<not> fst (checkLimit service ident now reqs) \<longrightarrow>
          history (snd (checkLimit service ident now reqs)) (limiter_key service ident) =
            filter (\<lambda>t. now - limit_window lim < t) (history reqs (limiter_key service ident)))
       \<and> length (history (snd (checkLimit_calls calls Map.empty)) (limiter_key service ident))
            \<le> limit_requests lim
       \<and> length (filter (\<lambda>t. now - limit_window lim < t)
              (history (snd (checkLimit_calls calls Map.empty)) (limiter_key service ident)))
            \<le> limit_requests lim"
proof -
  let ?key = "limiter_key service ident"
  have A: "fst (checkLimit_calls (map (\<lambda>t. (service, ident, t)) ts) reqs) =
            replicate (limit_requests lim) True @ [False]"
    if len: "length ts = limit_requests lim + 1"
      and pw: "\<forall>a\<in>set ts. \<forall>b\<in>set ts. b - a < limit_window lim"
      and old: "\<forall>x\<in>set (history reqs ?key). \<forall>t\<in>set ts. x \<le> t - limit_window lim"
  proof -
    have h: "history reqs ?key = history reqs ?key @ []" by simp
    have "fst (checkLimit_calls (map (\<lambda>t. (service, ident, t)) ts) reqs) =
           replicate (min (limit_requests lim - length ([]::int list)) (length ts)) True @
           replicate (length ts - (limit_requests lim - length ([]::int list))) False"
      by (rule checkLimit_calls_window [OF cfg h old _ pw]) simp
    then show ?thesis using len by simp
  qed
  have B: "history (snd (checkLimit service ident now reqs)) ?key =
            filter (\<lambda>t. now - limit_window lim < t) (history reqs ?key)"
    if "\<not> fst (checkLimit service ident now reqs)"
    using that unfolding checkLimit_fst [OF cfg] checkLimit_history_same [OF cfg]
    by (simp add: Let_def)
  have "within_ceiling (snd (checkLimit_calls calls Map.empty))"
    by (rule checkLimit_calls_within_ceiling [OF within_ceiling_empty])
  then have C: "length (history (snd (checkLimit_calls calls Map.empty)) ?key) \<le> limit_requests lim"
    using cfg by (simp add: within_ceiling_def)
  have D: "length (filter (\<lambda>t. now - limit_window lim < t)
              (history (snd (checkLimit_calls calls Map.empty)) ?key)) \<le> limit_requests lim"
    by (rule order_trans [OF length_filter_le C])
  from A B C D show ?thesis by blast
qed

theorem checkLimit_rate_ceiling_witness:
  "limits ''twitter'' = Some \<lparr>limit_requests = 15, limit_window = 900000\<rparr>
   \<and> fst (checkLimit_calls (map (\<lambda>t. (''twitter'', ''default'', t))
          [1000, 2000, 3000, 4000, 5000, 6000, 7000, 8000, 9000, 10000, 11000, 12000, 13000,
           14000, 15000, 16000]) Map.empty) = replicate 15 True @ [False]"
  using checkLimit_rate_ceiling [where service = "''twitter''"
      and lim = "\<lparr>limit_requests = 15, limit_window = 900000\<rparr>"
      and ident = "''default''" and reqs = Map.empty
      and ts = "[1000, 2000, 3000, 4000, 5000, 6000, 7000, 8000, 9000, 10000, 11000, 12000,
           13000, 14000, 15000, 16000]"]
  by (simp add: limits_def history_def)

text \<open>
  C7. Window expiry. On a limiter reached by \<^verbatim>\<open>checkLimit\<close> calls, for a configured
  service and a key with a recorded timestamp, a \<^verbatim>\<open>checkLimit\<close> call issued strictly
  later than the window after the oldest recorded timestamp answers true, also when the
  key was at its ceiling.
\<close>

theorem checkLimit_window_expiry:
  assumes cfg: "limits service = Some lim"
    and reach: "reqs = snd (checkLimit_calls calls Map.empty)"
    and recorded: "history reqs (limiter_key service ident) \<noteq> []"
    and later: "Min (set (history reqs (limiter_key service ident))) + limit_window lim < now"
  shows "fst (checkLimit service ident now reqs)"
proof -
  let ?h = "history reqs (limiter_key service ident)"
  have "within_ceiling reqs"
    unfolding reach by (rule checkLimit_calls_within_ceiling [OF within_ceiling_empty])
  then have c: "length ?h \<le> limit_requests lim"
    using cfg by (simp add: within_ceiling_def)
  have "Min (set ?h) \<in> set ?h"
    using recorded by (intro Min_in) simp_all
  moreover have "\<not> now - limit_window lim < Min (set ?h)"
    using later by simp
  ultimately have "length (filter (\<lambda>t. now - limit_window lim < t) ?h) < length ?h"
    by (rule length_filter_less)
  then show ?thesis
    unfolding checkLimit_fst [OF cfg] using c by simp
qed

theorem checkLimit_window_expiry_witness:
  "\<not> fst (checkLimit ''twitter'' ''default'' 16000
        (snd (checkLimit_calls (map (\<lambda>t. (''twitter'', ''default'', t))
          [1000, 2000, 3000, 4000, 5000, 6000, 7000, 8000, 9000, 10000, 11000, 12000, 13000,
           14000, 15000]) Map.empty)))
   \<and> fst (checkLimit ''twitter'' ''default'' 901001
        (snd (checkLimit_calls (map (\<lambda>t. (''twitter'', ''default'', t))
          [1000, 2000, 3000, 4000, 5000, 6000, 7000, 8000, 9000, 10000, 11000, 12000, 13000,
           14000, 15000]) Map.empty)))"
proof -
  let ?reqs = "snd (checkLimit_calls (map (\<lambda>t. (''twitter'', ''default'', t))
          [1000, 2000, 3000, 4000, 5000, 6000, 7000, 8000, 9000, 10000, 11000, 12000, 13000,
           14000, 15000]) Map.empty)"
  have cfg: "limits ''twitter'' = Some \<lparr>limit_requests = 15, limit_window = 900000\<rparr>"
    by (simp add: limits_def)
  have h: "history ?reqs (limiter_key ''twitter'' ''default'') =
      [1000, 2000, 3000, 4000, 5000, 6000, 7000, 8000, 9000, 10000, 11000, 12000, 13000,
           14000, 15000]"
    by (simp add: checkLimit_def limits_def limiter_key_def history_def Let_def)
  have full: "\<not> fst (checkLimit ''twitter'' ''default'' 16000 ?reqs)"
    unfolding checkLimit_fst [OF cfg] h by simp
  have "fst (checkLimit ''twitter'' ''default'' 901001 ?reqs)"
    by (rule checkLimit_window_expiry [OF cfg refl]) (unfold h, simp_all)
  with full show ?thesis by simp
qed

section \<open>Properties of the storage\<close>

lemma saveTweet_ok:
  assumes "tweet_username t = Some u" "tweet_text t = Some x" "tweet_created_at t = Some c"
  shows "\<exists>r. saveTweet t db = Inr (filter (\<lambda>r. \<not> id_matches (tweet_id t) r) db @ [r])
           \<and> row_id r = tweet_id t \<and> row_notified r = 0"
  using assms by (simp add: saveTweet_def)

lemma wasSent_after_mark:
  "wasSent (Some i) (map (\<lambda>r. if id_matches (Some i) r then r\<lparr>row_notified := 1\<rparr> else r) db) =
     (\<exists>r\<in>set db. row_id r = Some i)"
proof (induction db)
  case Nil
  then show ?case by (simp add: wasSent_def)
next
  case (Cons a db)
  then show ?case by (auto simp: wasSent_def id_matches_def)
qed

lemma markAsSent_without_data:
  "markAsSent (Some i) None db = Inr db' \<Longrightarrow> wasSent (Some i) db' = (\<exists>r\<in>set db. row_id r = Some i)"
  by (auto simp: markAsSent_def markAsNotified_def wasSent_after_mark)

lemma find_append_None:
  "find P xs = None \<Longrightarrow> find P (xs @ ys) = find P ys"
  by (induction xs) (auto split: if_splits)

lemma filter_not_matching_mark:
  "filter (\<lambda>r. \<not> id_matches i r) (map (\<lambda>r. if id_matches i r then r\<lparr>row_notified := 1\<rparr> else r) db) =
   filter (\<lambda>r. \<not> id_matches i r) db"
  by (induction db) (auto simp: id_matches_def split: option.splits)

lemma mark_not_matching:
  "map (\<lambda>r. if id_matches i r then r\<lparr>row_notified := 1\<rparr> else r) (filter (\<lambda>r. \<not> id_matches i r) db) =
   filter (\<lambda>r. \<not> id_matches i r) db"
  by (induction db) auto

text \<open>
  A record that carries the id it is stored under and the three fields the table
  requires (username, text, created_at), as the repository's test builds it: the
  first \<^verbatim>\<open>markAsSent(id, record)\<close> succeeds and \<^verbatim>\<open>wasSent(id)\<close> is true after it;
  a second call with the same id and record succeeds as well and leaves the very same
  table, in which exactly one row has the id. (The column \<^verbatim>\<open>processed_at\<close>, which
  the upsert stamps anew, is not in the model.)
\<close>

lemma markAsSent_valid_record:
  assumes "tweet_id t = Some i" "tweet_username t = Some u" "tweet_text t = Some x"
    "tweet_created_at t = Some c"
  shows "\<exists>db1. markAsSent (Some i) (Some t) db = Inr db1
           \<and> wasSent (Some i) db1
           \<and> markAsSent (Some i) (Some t) db1 = Inr db1
           \<and> length (filter (id_matches (Some i)) db1) = 1"
proof -
  obtain r where s: "saveTweet t db = Inr (filter (\<lambda>r. \<not> id_matches (Some i) r) db @ [r])"
    and r: "row_id r = Some i" "row_notified r = 0"
    using saveTweet_ok [OF assms(2-4), of db] assms(1) by auto
  let ?keep = "filter (\<lambda>r. \<not> id_matches (Some i) r) db"
  let ?db1 = "?keep @ [r\<lparr>row_notified := 1\<rparr>]"
  have m: "id_matches (Some i) r" using r by (simp add: id_matches_def)
  have first: "markAsSent (Some i) (Some t) db = Inr ?db1"
    using s m by (simp add: markAsSent_def markAsNotified_def mark_not_matching)
  have sent: "wasSent (Some i) ?db1"
  proof -
    have "find (id_matches (Some i)) ?keep = None"
      by (simp add: find_None_iff)
    then show ?thesis using m r
      by (simp add: wasSent_def find_append_None id_matches_def)
  qed
  have s2: "saveTweet t ?db1 = Inr (?keep @ [r])"
  proof -
    obtain r' where s': "saveTweet t ?db1 = Inr (filter (\<lambda>r. \<not> id_matches (Some i) r) ?db1 @ [r'])"
      using saveTweet_ok [OF assms(2-4), of ?db1] assms(1) by auto
    have "r' = r" using s s' assms by (simp add: saveTweet_def)
    moreover have "filter (\<lambda>r. \<not> id_matches (Some i) r) ?db1 = ?keep"
      using r by (simp add: id_matches_def)
    ultimately show ?thesis using s' by simp
  qed
  have second: "markAsSent (Some i) (Some t) ?db1 = Inr ?db1"
    using s2 m by (simp add: markAsSent_def markAsNotified_def mark_not_matching)
  have one: "length (filter (id_matches (Some i)) ?db1) = 1"
  proof -
    have "filter (id_matches (Some i)) ?keep = []"
      by (simp add: filter_empty_conv)
    then show ?thesis using r by (simp add: id_matches_def)
  qed
  from first sent second one show ?thesis by blast
qed

lemma markAsSent_test_record:
  "\<exists>db1. markAsSent (Some ''t1'') (Some (sample_tweet ''t1'' ''about Podha'')) [] = Inr db1
     \<and> wasSent (Some ''t1'') db1
     \<and> markAsSent (Some ''t1'') (Some (sample_tweet ''t1'' ''about Podha'')) db1 = Inr db1
     \<and> length (filter (id_matches (Some ''t1'')) db1) = 1"
  by (rule markAsSent_valid_record) (simp_all add: sample_tweet_def)

text \<open>
  C3 fails on the code. \<^verbatim>\<open>saveTweet\<close> reads \<^verbatim>\<open>tweet.username\<close> and
  \<^verbatim>\<open>tweet.created_at\<close>, and every record that the scrapers build has
  \<^verbatim>\<open>author\<close> and \<^verbatim>\<open>timestamp\<close> instead. So on every table the first
  \<^verbatim>\<open>markAsSent(record.id, record)\<close> of a record read from Nitter, and of each of the
  three demo records, violates NOT NULL on \<^verbatim>\<open>username\<close> and rejects; nothing is
  stored, and \<^verbatim>\<open>wasSent\<close> of the id is as false after the call as before.
\<close>

theorem markAsSent_rejects_scraped_records:
  "markAsSent (tweet_id nitter_tweet) (Some nitter_tweet) db =
     Inl (NOT_NULL_constraint_failed ''tweets.username'')
   \<and> (case item_tweet rt it of
         None \<Rightarrow> True
       | Some t \<Rightarrow> markAsSent (tweet_id t) (Some t) db =
           Inl (NOT_NULL_constraint_failed ''tweets.username''))
   \<and> map (\<lambda>t. markAsSent (tweet_id t) (Some t) db) (createDemoTweets rt q) =
       replicate 3 (Inl (NOT_NULL_constraint_failed ''tweets.username''))
   \<and> \<not> wasSent (tweet_id nitter_tweet) (tweets_table new_listener)"
proof -
  have a: "markAsSent (tweet_id nitter_tweet) (Some nitter_tweet) db =
     Inl (NOT_NULL_constraint_failed ''tweets.username'')"
    by (simp add: markAsSent_def saveTweet_def nitter_tweet_def)
  have b: "case item_tweet rt it of
         None \<Rightarrow> True
       | Some t \<Rightarrow> markAsSent (tweet_id t) (Some t) db =
           Inl (NOT_NULL_constraint_failed ''tweets.username'')"
    by (simp add: item_tweet_def markAsSent_def saveTweet_def split: option.splits)
  have c: "map (\<lambda>t. markAsSent (tweet_id t) (Some t) db) (createDemoTweets rt q) =
       replicate 3 (Inl (NOT_NULL_constraint_failed ''tweets.username''))"
    by (simp add: createDemoTweets_def markAsSent_def saveTweet_def numeral_3_eq_3)
  have d: "\<not> wasSent (tweet_id nitter_tweet) (tweets_table new_listener)"
    by code_simp
  from a b c d show ?thesis by blast
qed

section \<open>Properties of the query simplifier\<close>
















section \<open>Properties of the notifier and of the run\<close>

lemma sendTweet_resolves: "\<exists>r. sendTweet hook http t = Inr r"
  by (auto simp: sendTweet_def sendTweetNotification_def try_catch_def split: option.splits sum.splits)

lemma markAsSent_without_data_ok: "\<exists>db'. markAsSent i None db = Inr db'"
  by (simp add: markAsSent_def markAsNotified_def)

lemma search_all_flag: "isRunning (snd (search_all w qs acc s)) = isRunning s"
  by (induction qs arbitrary: acc s) (auto split: sum.splits)

lemma search_all_table: "tweets_table (snd (search_all w qs acc s)) = tweets_table s"
  by (induction qs arbitrary: acc s) (auto split: sum.splits)

lemma deliver_all_flag: "isRunning (snd (deliver_all w ts s)) = isRunning s"
  by (induction ts arbitrary: s) (auto split: sum.splits)

lemma workflow_body_flag: "isRunning (snd (workflow_body w s)) = isRunning s"
proof -
  obtain r s1 where sa: "search_all w (getSearchQueries (filters s)) [] s = (r, s1)"
    by (cases "search_all w (getSearchQueries (filters s)) [] s")
  have f1: "isRunning s1 = isRunning s"
    using search_all_flag [of w "getSearchQueries (filters s)" "[]" s] sa by simp
  show ?thesis
  proof (cases r)
    case (Inl e)
    then show ?thesis using sa f1 by (simp add: workflow_body_def)
  next
    case (Inr allTweets)
    let ?new = "filterNewTweets (tweets_table s1) (removeDuplicates allTweets)"
    obtain r2 s2 where d: "deliver_all w ?new s1 = (r2, s2)"
      by (cases "deliver_all w ?new s1")
    have "isRunning s2 = isRunning s1"
      using deliver_all_flag [of w ?new s1] d by simp
    then show ?thesis using sa f1 Inr d
      by (cases r2) (simp_all add: workflow_body_def Let_def)
  qed
qed

lemma runWorkflow_skips:
  "isRunning s \<Longrightarrow> runWorkflow w s = (Skipped, s\<lparr>effects := effects s @ [Skip_warned]\<rparr>)"
  by (simp add: runWorkflow_def runWorkflow_enter_def)

lemma runWorkflow_clears:
  "\<not> isRunning s \<Longrightarrow> \<not> isRunning (snd (runWorkflow w s))"
  by (auto simp: runWorkflow_def runWorkflow_enter_def runWorkflow_finally_def
      split: prod.splits sum.splits)

lemma runWorkflow_not_skipped:
  "\<not> isRunning s \<Longrightarrow> fst (runWorkflow w s) \<noteq> Skipped"
  by (auto simp: runWorkflow_def runWorkflow_enter_def split: prod.splits sum.splits)

lemma reachable_exclusive:
  "reachable sn \<Longrightarrow> snd sn \<le> 1 \<and> (isRunning (fst sn) \<longleftrightarrow> snd sn = 1)"
proof (induction rule: reachable.induct)
  case (constructed s)
  then show ?case by simp
next
  case (trigger s n entered s')
  then show ?case
    by (auto simp: runWorkflow_enter_def split: if_splits)
next
  case (step s n s')
  then show ?case by simp
next
  case (finish s n)
  then show ?case by (auto simp: runWorkflow_finally_def)
qed

lemma sent_tweets_append: "sent_tweets (xs @ ys) = sent_tweets xs @ sent_tweets ys"
  by (simp add: sent_tweets_def List.map_filter_def)

lemma sent_tweets_simps:
  "sent_tweets [] = []"
  "sent_tweets (Sent t r # es) = t # sent_tweets es"
  "sent_tweets (Marked i # es) = sent_tweets es"
  "sent_tweets (Airtable_logged t # es) = sent_tweets es"
  "sent_tweets (Notion_logged t # es) = sent_tweets es"
  by (simp_all add: sent_tweets_def List.map_filter_def)

lemma deliver_all_completes:
  "fst (deliver_all w ts s) = Inr ()
   \<and> sent_tweets (effects (snd (deliver_all w ts s))) = sent_tweets (effects s) @ ts"
proof (induction ts arbitrary: s)
  case Nil
  then show ?case by simp
next
  case (Cons t ts)
  obtain r where r: "sendTweet (webhookUrl s) (post w) t = Inr r"
    using sendTweet_resolves by blast
  obtain db' where m: "markAsSent (tweet_id t) None (tweets_table s) = Inr db'"
    using markAsSent_without_data_ok by blast
  show ?case
    using r m Cons.IH by (simp add: sent_tweets_append sent_tweets_simps)
qed

text \<open>
  C10. The notification sink never rejects. For every tweet, every webhook setting and
  every answer of the HTTP post, \<^verbatim>\<open>sendTweet\<close> resolves with an object: the post's
  success gives \<^verbatim>\<open>success: true\<close>; a webhook that is not configured and an error of
  the post give \<^verbatim>\<open>success: false\<close> with the error's message. So the delivery loop
  of \<^verbatim>\<open>runWorkflow\<close> is never left by the sink: in every world it sends and marks
  each of the new tweets in order and ends without an error.
\<close>

theorem sendTweet_never_rejects:
  "(\<exists>r. sendTweet hook http t = Inr r
       \<and> (sr_success r \<longleftrightarrow>
            (\<exists>url data. hook = Some url \<and> url \<noteq> [] \<and> http url (tweet_payload t) = Inr data))
       \<and> (hook = None \<or> hook = Some [] \<longrightarrow>
            r = \<lparr>sr_success = False, sr_error = Some ''Webhook not configured'', sr_response = None\<rparr>)
       \<and> (\<forall>url e. hook = Some url \<and> url \<noteq> [] \<and> http url (tweet_payload t) = Inl e \<longrightarrow>
            r = \<lparr>sr_success = False, sr_error = Some e, sr_response = None\<rparr>))
   \<and> fst (deliver_all w ts s) = Inr ()
   \<and> sent_tweets (effects (snd (deliver_all w ts s))) = sent_tweets (effects s) @ ts"
proof -
  have "\<exists>r. sendTweet hook http t = Inr r
       \<and> (sr_success r \<longleftrightarrow>
            (\<exists>url data. hook = Some url \<and> url \<noteq> [] \<and> http url (tweet_payload t) = Inr data))
       \<and> (hook = None \<or> hook = Some [] \<longrightarrow>
            r = \<lparr>sr_success = False, sr_error = Some ''Webhook not configured'', sr_response = None\<rparr>)
       \<and> (\<forall>url e. hook = Some url \<and> url \<noteq> [] \<and> http url (tweet_payload t) = Inl e \<longrightarrow>
            r = \<lparr>sr_success = False, sr_error = Some e, sr_response = None\<rparr>)"
    by (auto simp: sendTweet_def sendTweetNotification_def try_catch_def not_configured_def
        split: option.splits sum.splits)
  then show ?thesis using deliver_all_completes [of w ts s] by blast
qed

theorem sendTweet_never_rejects_witness:
  "sendTweet None (\<lambda>url body. Inl ''Request failed with status code 429'') nitter_tweet =
     Inr \<lparr>sr_success = False, sr_error = Some ''Webhook not configured'', sr_response = None\<rparr>
   \<and> sendTweet (Some ''https://discord.com/api/webhooks/1/token'')
       (\<lambda>url body. Inl ''Request failed with status code 429'') nitter_tweet =
     Inr \<lparr>sr_success = False, sr_error = Some ''Request failed with status code 429'',
          sr_response = None\<rparr>
   \<and> fst (deliver_all
        \<lparr>search = (\<lambda>query. Inr []), post = (\<lambda>url body. Inl ''Request failed with status code 429'')\<rparr>
        [nitter_tweet, sample_tweet ''t2'' ''x''] new_listener) = Inr ()
   \<and> sent_tweets (effects (snd (deliver_all
        \<lparr>search = (\<lambda>query. Inr []), post = (\<lambda>url body. Inl ''Request failed with status code 429'')\<rparr>
        [nitter_tweet, sample_tweet ''t2'' ''x''] new_listener))) =
      [nitter_tweet, sample_tweet ''t2'' ''x'']"
proof -
  let ?http = "\<lambda>(url::string) (body::payload). (Inl ''Request failed with status code 429'' :: string promise)"
  let ?w = "\<lparr>search = (\<lambda>query. Inr []), post = ?http\<rparr>"
  have a: "sendTweet None ?http nitter_tweet =
     Inr \<lparr>sr_success = False, sr_error = Some ''Webhook not configured'', sr_response = None\<rparr>"
    using sendTweet_never_rejects [of None ?http nitter_tweet] by auto
  have b: "sendTweet (Some ''https://discord.com/api/webhooks/1/token'') ?http nitter_tweet =
     Inr \<lparr>sr_success = False, sr_error = Some ''Request failed with status code 429'',
          sr_response = None\<rparr>"
    using sendTweet_never_rejects [of "Some ''https://discord.com/api/webhooks/1/token''" ?http nitter_tweet]
    by auto
  have c: "fst (deliver_all ?w [nitter_tweet, sample_tweet ''t2'' ''x''] new_listener) = Inr ()
     \<and> sent_tweets (effects (snd (deliver_all ?w [nitter_tweet, sample_tweet ''t2'' ''x''] new_listener))) =
        sent_tweets (effects new_listener) @ [nitter_tweet, sample_tweet ''t2'' ''x'']"
    using sendTweet_never_rejects [of None ?http nitter_tweet ?w "[nitter_tweet, sample_tweet ''t2'' ''x'']" new_listener]
    by blast
  have d: "sent_tweets (effects new_listener) = []"
    by (simp add: new_listener_def sent_tweets_simps)
  from a b c d show ?thesis by simp
qed

text \<open>
  C9. Run mutual exclusion. In every state that interleaved triggers can reach, at most
  one call is inside the \<^verbatim>\<open>try\<close> block, and the flag is set exactly when one is. A
  trigger that finds the flag set returns at once: it logs the warning and performs no
  search, no send and no write to the table. The body never writes the flag, and a call
  that found the flag clear leaves it clear when it returns, whether it completed or
  threw.
\<close>

theorem runWorkflow_mutual_exclusion:
  "(reachable (s, n) \<longrightarrow> n \<le> 1 \<and> (isRunning s \<longleftrightarrow> n = 1))
   \<and> (isRunning s \<longrightarrow> runWorkflow w s = (Skipped, s\<lparr>effects := effects s @ [Skip_warned]\<rparr>))
   \<and> isRunning (snd (workflow_body w s)) = isRunning s
   \<and> (\<not> isRunning s \<longrightarrow> \<not> isRunning (snd (runWorkflow w s)) \<and> fst (runWorkflow w s) \<noteq> Skipped)"
  using reachable_exclusive [of "(s, n)"] runWorkflow_skips [of s w] workflow_body_flag [of w s]
    runWorkflow_clears [of s w] runWorkflow_not_skipped [of s w]
  by auto

theorem runWorkflow_mutual_exclusion_witness:
  "reachable (new_listener\<lparr>isRunning := True\<rparr>, 1)
   \<and> runWorkflow steady_world (new_listener\<lparr>isRunning := True\<rparr>) =
       (Skipped, new_listener\<lparr>isRunning := True, effects := [Skip_warned]\<rparr>)
   \<and> fst (runWorkflow failing_world new_listener) = Threw (Search_failed ''net::ERR_CONNECTION_REFUSED'')
   \<and> \<not> isRunning (snd (runWorkflow failing_world new_listener))
   \<and> fst (runWorkflow steady_world new_listener) = Completed 1
   \<and> \<not> isRunning (snd (runWorkflow steady_world new_listener))"
proof -
  have idle: "\<not> isRunning new_listener" by (simp add: new_listener_def)
  have "reachable (new_listener, 0)" using idle by (rule reachable.constructed)
  moreover have "runWorkflow_enter new_listener = (True, new_listener\<lparr>isRunning := True\<rparr>)"
    using idle by (simp add: runWorkflow_enter_def)
  ultimately have "reachable (new_listener\<lparr>isRunning := True\<rparr>, if True then 0 + 1 else 0)"
    by (rule reachable.trigger)
  then have r: "reachable (new_listener\<lparr>isRunning := True\<rparr>, 1)" by simp
  have busy: "isRunning (new_listener\<lparr>isRunning := True\<rparr>)" by simp
  have skip: "runWorkflow steady_world (new_listener\<lparr>isRunning := True\<rparr>) =
       (Skipped, new_listener\<lparr>isRunning := True, effects := [Skip_warned]\<rparr>)"
    using runWorkflow_mutual_exclusion [of "new_listener\<lparr>isRunning := True\<rparr>" 1 steady_world] busy
    by (simp add: new_listener_def)
  have t: "fst (runWorkflow failing_world new_listener) = Threw (Search_failed ''net::ERR_CONNECTION_REFUSED'')"
    by code_simp
  have c: "fst (runWorkflow steady_world new_listener) = Completed 1"
    by code_simp
  have f1: "\<not> isRunning (snd (runWorkflow failing_world new_listener))"
    using runWorkflow_mutual_exclusion [of new_listener 0 failing_world] idle by blast
  have f2: "\<not> isRunning (snd (runWorkflow steady_world new_listener))"
    using runWorkflow_mutual_exclusion [of new_listener 0 steady_world] idle by blast
  from r skip t c f1 f2 show ?thesis by blast
qed

section \<open>Properties of the Nitter fallback\<close>

lemma createDemoTweets_shape:
  "length (createDemoTweets rt q) = 3
   \<and> (\<forall>t\<in>set (createDemoTweets rt q).
         tweet_source t = Some ''demo'' \<and> (\<exists>txt. tweet_text t = Some txt \<and> sublist q txt))"
  by (simp add: createDemoTweets_def sublist_Cons_right)

lemma item_tweet_source: "item_tweet rt it = Some t \<Longrightarrow> tweet_source t = Some ''nitter''"
  by (auto simp: item_tweet_def split: option.splits if_splits)

lemma searchWithNitter_resolves: "\<exists>ts. searchWithNitter rt inst get query = Inr ts"
  by (auto simp: searchWithNitter_def try_catch_def Let_def split: sum.splits)

lemma searchTweets_first_attempt:
  "0 < maxRetries \<Longrightarrow> searchWithNitter rt inst (get 0) query = Inr ts \<Longrightarrow>
   searchTweets rt inst get maxRetries query = Inr (Some ts)"
  by (simp add: searchTweets_def searchTweets_loop.simps)

text \<open>
  C8. Fallback guarantee. With the fetcher on the Nitter proxy, when the live fetch
  throws or the page yields no tweet, \<^verbatim>\<open>searchWithNitter\<close> does not throw: it
  resolves with the three demo records for the simplified query, each tagged
  \<^verbatim>\<open>source: 'demo'\<close> and carrying the simplified query in its text, where a record
  read from the page is tagged \<^verbatim>\<open>'nitter'\<close>. \<^verbatim>\<open>searchTweets\<close>, for a positive
  \<^verbatim>\<open>maxRetries\<close> (3 by default), resolves with the same records at its first attempt.
\<close>

theorem searchWithNitter_fallback:
  assumes live: "get 0 (inst @ ''/search?q='' @ encodeURIComponent rt (TwitterScraper_simplifyQuery query)) = Inl e
      \<or> (\<exists>items. get 0 (inst @ ''/search?q='' @ encodeURIComponent rt (TwitterScraper_simplifyQuery query)) = Inr items
           \<and> List.map_filter (item_tweet rt) (take 11 items) = [])"
  shows "searchWithNitter rt inst (get 0) query =
           Inr (createDemoTweets rt (TwitterScraper_simplifyQuery query))
     \<and> (0 < maxRetries \<longrightarrow> searchTweets rt inst get maxRetries query =
           Inr (Some (createDemoTweets rt (TwitterScraper_simplifyQuery query))))
     \<and> length (createDemoTweets rt (TwitterScraper_simplifyQuery query)) = 3
     \<and> (\<forall>t\<in>set (createDemoTweets rt (TwitterScraper_simplifyQuery query)).
           tweet_source t = Some ''demo'' \<and>
           (\<exists>txt. tweet_text t = Some txt \<and> sublist (TwitterScraper_simplifyQuery query) txt))
     \<and> (\<forall>it t. item_tweet rt it = Some t \<longrightarrow> tweet_source t = Some ''nitter'')"
proof -
  have a: "searchWithNitter rt inst (get 0) query =
           Inr (createDemoTweets rt (TwitterScraper_simplifyQuery query))"
    using live by (auto simp: searchWithNitter_def try_catch_def Let_def)
  have b: "searchTweets rt inst get maxRetries query =
           Inr (Some (createDemoTweets rt (TwitterScraper_simplifyQuery query)))" if "0 < maxRetries"
    using that a by (rule searchTweets_first_attempt)
  from a b createDemoTweets_shape [of rt "TwitterScraper_simplifyQuery query"] item_tweet_source
  show ?thesis by blast
qed

theorem searchWithNitter_fallback_witness:
  "searchTweets
      \<lparr>Date_now = 1700000000000, number_to_string = (\<lambda>n. ''1700000000000''),
       toISOString = (\<lambda>n. ''2023-11-14T22:13:20.000Z''), encodeURIComponent = (\<lambda>s. s)\<rparr>
      ''https://nitter.net'' (\<lambda>attempt url. Inl ''connect ECONNREFUSED'') 3 ''Podha'' =
     Inr (Some (createDemoTweets
      \<lparr>Date_now = 1700000000000, number_to_string = (\<lambda>n. ''1700000000000''),
       toISOString = (\<lambda>n. ''2023-11-14T22:13:20.000Z''), encodeURIComponent = (\<lambda>s. s)\<rparr>
      (TwitterScraper_simplifyQuery ''Podha'')))
   \<and> map tweet_source (createDemoTweets
      \<lparr>Date_now = 1700000000000, number_to_string = (\<lambda>n. ''1700000000000''),
       toISOString = (\<lambda>n. ''2023-11-14T22:13:20.000Z''), encodeURIComponent = (\<lambda>s. s)\<rparr>
      (TwitterScraper_simplifyQuery ''Podha'')) = [Some ''demo'', Some ''demo'', Some ''demo'']
   \<and> searchWithNitter
      \<lparr>Date_now = 1700000000000, number_to_string = (\<lambda>n. ''1700000000000''),
       toISOString = (\<lambda>n. ''2023-11-14T22:13:20.000Z''), encodeURIComponent = (\<lambda>s. s)\<rparr>
      ''https://nitter.net'' (\<lambda>url. Inr []) ''Podha'' =
     Inr (createDemoTweets
      \<lparr>Date_now = 1700000000000, number_to_string = (\<lambda>n. ''1700000000000''),
       toISOString = (\<lambda>n. ''2023-11-14T22:13:20.000Z''), encodeURIComponent = (\<lambda>s. s)\<rparr>
      (TwitterScraper_simplifyQuery ''Podha''))"
proof -
  let ?rt = "\<lparr>Date_now = 1700000000000, number_to_string = (\<lambda>n. ''1700000000000''),
       toISOString = (\<lambda>n. ''2023-11-14T22:13:20.000Z''), encodeURIComponent = (\<lambda>s. s)\<rparr>"
  let ?down = "\<lambda>(attempt::nat) (url::string). (Inl ''connect ECONNREFUSED'' :: timeline_item list promise)"
  let ?empty = "\<lambda>(attempt::nat) (url::string). (Inr [] :: timeline_item list promise)"
  have a: "searchTweets ?rt ''https://nitter.net'' ?down 3 ''Podha'' =
     Inr (Some (createDemoTweets ?rt (TwitterScraper_simplifyQuery ''Podha'')))"
    using searchWithNitter_fallback [of ?down "''https://nitter.net''" ?rt "''Podha''" "''connect ECONNREFUSED''" 3]
    by simp
  have b: "searchWithNitter ?rt ''https://nitter.net'' (?empty 0) ''Podha'' =
     Inr (createDemoTweets ?rt (TwitterScraper_simplifyQuery ''Podha''))"
    using searchWithNitter_fallback [of ?empty "''https://nitter.net''" ?rt "''Podha''" _ 3]
    by (simp add: List.map_filter_def)
  have c: "map tweet_source (createDemoTweets ?rt (TwitterScraper_simplifyQuery ''Podha'')) =
      [Some ''demo'', Some ''demo'', Some ''demo'']"
    by (simp add: createDemoTweets_def)
  from a b c show ?thesis by simp
qed

section \<open>Delivery across runs\<close>

text \<open>
  C1 fails on the code. \<^verbatim>\<open>runWorkflow\<close> calls \<^verbatim>\<open>markAsSent(tweet.id)\<close> without the
  record, so nothing is inserted and the update selects no row: after a run that has
  sent and marked the tweet, the table is what it was before and \<^verbatim>\<open>wasSent\<close> of the
  id is still false, and the next run finds the same tweet new and sends it again. In
  general, \<^verbatim>\<open>markAsSent(id)\<close> without a record succeeds on every table and leaves
  \<^verbatim>\<open>wasSent(id)\<close> true only if the table already had a row with the id.
\<close>

theorem runWorkflow_redelivers:
  "fst (runWorkflow steady_world new_listener) = Completed 1
   \<and> effects (snd (runWorkflow steady_world new_listener)) =
       map Searched (getSearchQueries filter_queries) @
       [Sent nitter_tweet \<lparr>sr_success = True, sr_error = None, sr_response = Some ''ok''\<rparr>,
        Marked (tweet_id nitter_tweet)]
   \<and> tweets_table (snd (runWorkflow steady_world new_listener)) = tweets_table new_listener
   \<and> \<not> wasSent (tweet_id nitter_tweet) (tweets_table (snd (runWorkflow steady_world new_listener)))
   \<and> fst (runWorkflow steady_world (snd (runWorkflow steady_world new_listener))) = Completed 1
   \<and> sent_tweets (effects (snd (runWorkflow steady_world (snd (runWorkflow steady_world new_listener))))) =
       [nitter_tweet, nitter_tweet]
   \<and> (\<exists>db'. markAsSent (Some i) None db = Inr db'
         \<and> wasSent (Some i) db' = (\<exists>r\<in>set db. row_id r = Some i))"
proof -
  have run: "fst (runWorkflow steady_world new_listener) = Completed 1
   \<and> effects (snd (runWorkflow steady_world new_listener)) =
       map Searched (getSearchQueries filter_queries) @
       [Sent nitter_tweet \<lparr>sr_success = True, sr_error = None, sr_response = Some ''ok''\<rparr>,
        Marked (tweet_id nitter_tweet)]
   \<and> tweets_table (snd (runWorkflow steady_world new_listener)) = tweets_table new_listener
   \<and> \<not> wasSent (tweet_id nitter_tweet) (tweets_table (snd (runWorkflow steady_world new_listener)))
   \<and> fst (runWorkflow steady_world (snd (runWorkflow steady_world new_listener))) = Completed 1
   \<and> sent_tweets (effects (snd (runWorkflow steady_world (snd (runWorkflow steady_world new_listener))))) =
       [nitter_tweet, nitter_tweet]"
    by code_simp
  obtain db' where m: "markAsSent (Some i) None db = Inr db'"
    using markAsSent_without_data_ok by blast
  then have "wasSent (Some i) db' = (\<exists>r\<in>set db. row_id r = Some i)"
    by (rule markAsSent_without_data)
  with m run show ?thesis by blast
qed

end
